theory Spec2Isabelle
  imports Complex_Main "HOL-Library.AList" "HOL-Library.Char_ord" "HOL-Library.List_Lexorder"
begin

section \<open>Text\<close>

text \<open>
  Python strings are modelled as \<open>string\<close>, read as UTF-8 bytes. The text functions
  below are those of Python on ASCII text; a byte above 127 is passed through unchanged
  and counts neither as white space nor as a letter.
\<close>

definition is_space :: "char \<Rightarrow> bool" where
  "is_space c = (of_char c \<in> {9, 10, 11, 12, 13, 28, 29, 30, 31, 32 :: nat})"

definition strip :: "string \<Rightarrow> string" where
  "strip s = rev (dropWhile is_space (rev (dropWhile is_space s)))"

definition is_upper :: "char \<Rightarrow> bool" where
  "is_upper c = (65 \<le> (of_char c :: nat) \<and> (of_char c :: nat) \<le> 90)"

definition is_lower :: "char \<Rightarrow> bool" where
  "is_lower c = (97 \<le> (of_char c :: nat) \<and> (of_char c :: nat) \<le> 122)"

definition to_lower :: "char \<Rightarrow> char" where
  "to_lower c = (if is_upper c then char_of (of_char c + (32::nat)) else c)"

definition to_upper :: "char \<Rightarrow> char" where
  "to_upper c = (if is_lower c then char_of (of_char c - (32::nat)) else c)"

definition lower :: "string \<Rightarrow> string" where
  "lower s = map to_lower s"

text \<open>\<open>str.title\<close>: a letter is upper-cased when the character before it is not a
  letter and lower-cased otherwise.\<close>

fun title_from :: "bool \<Rightarrow> string \<Rightarrow> string" where
  "title_from prev [] = []"
| "title_from prev (c # cs) =
     (if is_upper c \<or> is_lower c
      then (if prev then to_lower c else to_upper c) # title_from True cs
      else c # title_from False cs)"

definition title :: "string \<Rightarrow> string" where
  "title s = title_from False s"

definition replace_char :: "char \<Rightarrow> char \<Rightarrow> string \<Rightarrow> string" where
  "replace_char a b s = map (\<lambda>c. if c = a then b else c) s"

section \<open>Data frames\<close>

text \<open>
  A cell of an object-typed column is a text, the float NaN (a key missing from a
  record) or \<open>None\<close> (a JSON null). A column is numeric or object-typed. A cell of
  a numeric column is a float64: NaN, a finite number or an infinity. Finite numbers
  are exact reals: a quotient beyond the float64 range is the infinity of its sign, as
  in the code, and the rounding of a result within the range is outside the model.
  So are the other column types of pandas (bool, datetime) and object columns that
  mix text with numbers or lists.
  A frame is its row labels and its labelled columns, in order. The model describes
  the frames whose columns are as long as the index and whose labels stay pairwise
  different under the renaming; what the library does with two columns of one label
  is not modelled.
\<close>

datatype obj = OStr string | ONaN | ONone

datatype float64 = NaN | Num real | PInf | NInf

datatype column = NumCol "float64 list" | ObjCol "obj list"

record dataframe =
  index :: "nat list"
  data :: "(string \<times> column) list"

datatype error = KeyError string | TypeError

definition columns :: "dataframe \<Rightarrow> string list" where
  "columns df = map fst (data df)"

definition len :: "dataframe \<Rightarrow> nat" where
  "len df = length (index df)"

fun col_len :: "column \<Rightarrow> nat" where
  "col_len (NumCol xs) = length xs"
| "col_len (ObjCol xs) = length xs"

text \<open>\<open>df[mask]\<close>: the rows at which the boolean mask holds.\<close>

fun select :: "bool list \<Rightarrow> 'a list \<Rightarrow> 'a list" where
  "select (b # bs) (x # xs) = (if b then x # select bs xs else select bs xs)"
| "select _ _ = []"

fun select_col :: "bool list \<Rightarrow> column \<Rightarrow> column" where
  "select_col m (NumCol xs) = NumCol (select m xs)"
| "select_col m (ObjCol xs) = ObjCol (select m xs)"

definition loc_mask :: "bool list \<Rightarrow> dataframe \<Rightarrow> dataframe" where
  "loc_mask m df =
     \<lparr>index = select m (index df), data = map (\<lambda>(n, c). (n, select_col m c)) (data df)\<rparr>"

text \<open>\<open>df[name] = c\<close> replaces the column in place or appends it;
  \<open>if name in df.columns: df[name] = f(df[name])\<close> is \<open>update_col\<close>.\<close>

definition set_col :: "string \<Rightarrow> column \<Rightarrow> dataframe \<Rightarrow> dataframe" where
  "set_col name c df = df\<lparr>data := AList.update name c (data df)\<rparr>"

definition update_col :: "string \<Rightarrow> (column \<Rightarrow> column) \<Rightarrow> dataframe \<Rightarrow> dataframe" where
  "update_col name f df = df\<lparr>data := AList.map_entry name f (data df)\<rparr>"

text \<open>\<open>str(x)\<close> of a cell. The text of a finite number is the library's: \<open>fmt\<close>
  stands for it in every function that needs it.\<close>

fun py_str :: "obj \<Rightarrow> string" where
  "py_str (OStr s) = s"
| "py_str ONaN = ''nan''"
| "py_str ONone = ''None''"

fun num_str :: "(real \<Rightarrow> string) \<Rightarrow> float64 \<Rightarrow> string" where
  "num_str fmt NaN = ''nan''"
| "num_str fmt (Num r) = fmt r"
| "num_str fmt PInf = ''inf''"
| "num_str fmt NInf = ''-inf''"

fun astype_str :: "(real \<Rightarrow> string) \<Rightarrow> column \<Rightarrow> string list" where
  "astype_str fmt (NumCol xs) = map (num_str fmt) xs"
| "astype_str fmt (ObjCol xs) = map py_str xs"

text \<open>\<open>pd.to_numeric(col, errors="coerce")\<close>: \<open>parse\<close> stands for the library's
  reading of a text as a number, NaN where it reads none.\<close>

fun obj_to_numeric :: "(string \<Rightarrow> float64) \<Rightarrow> obj \<Rightarrow> float64" where
  "obj_to_numeric parse (OStr s) = parse s"
| "obj_to_numeric parse ONaN = NaN"
| "obj_to_numeric parse ONone = NaN"

fun to_numeric :: "(string \<Rightarrow> float64) \<Rightarrow> column \<Rightarrow> float64 list" where
  "to_numeric parse (NumCol xs) = xs"
| "to_numeric parse (ObjCol xs) = map (obj_to_numeric parse) xs"

text \<open>The mean of a boolean series is NaN (\<open>None\<close>) on the empty series, and a
  comparison with NaN is false.\<close>

definition mean_bool :: "bool list \<Rightarrow> real option" where
  "mean_bool bs =
     (if bs = [] then None else Some (real (length (filter id bs)) / real (length bs)))"

definition gt :: "real option \<Rightarrow> real \<Rightarrow> bool" where
  "gt m x = (case m of None \<Rightarrow> False | Some v \<Rightarrow> x < v)"

text \<open>\<open>duplicated(keep="first")\<close>: true at a value seen at an earlier row.\<close>

fun duplicated_from :: "'a list \<Rightarrow> 'a list \<Rightarrow> bool list" where
  "duplicated_from seen [] = []"
| "duplicated_from seen (x # xs) = (x \<in> set seen) # duplicated_from (x # seen) xs"

fun duplicated :: "column \<Rightarrow> bool list" where
  "duplicated (NumCol xs) = duplicated_from [] xs"
| "duplicated (ObjCol xs) = duplicated_from [] xs"

definition drop_duplicates :: "column \<Rightarrow> dataframe \<Rightarrow> dataframe" where
  "drop_duplicates key df = loc_mask (map Not (duplicated key)) df"

section \<open>standardize_columns\<close>

definition canon_name :: "string \<Rightarrow> string" where
  "canon_name c = replace_char (CHR ''-'') (CHR ''_'') (replace_char (CHR '' '') (CHR ''_'') (strip c))"

definition rename_map :: "(string \<times> string) list" where
  "rename_map =
    [(''customerid'', ''customerID''), (''customer_id'', ''customerID''),
     (''gender'', ''gender''), (''seniorcitizen'', ''SeniorCitizen''),
     (''partner'', ''Partner''), (''dependents'', ''Dependents''),
     (''tenure'', ''tenure''), (''phoneservice'', ''PhoneService''),
     (''multiplelines'', ''MultipleLines''), (''internetservice'', ''InternetService''),
     (''onlinesecurity'', ''OnlineSecurity''), (''onlinebackup'', ''OnlineBackup''),
     (''deviceprotection'', ''DeviceProtection''), (''techsupport'', ''TechSupport''),
     (''streamingtv'', ''StreamingTV''), (''streamingmovies'', ''StreamingMovies''),
     (''contract'', ''Contract''), (''paperlessbilling'', ''PaperlessBilling''),
     (''paymentmethod'', ''PaymentMethod''), (''monthlycharges'', ''MonthlyCharges''),
     (''totalcharges'', ''TotalCharges''), (''churn'', ''Churn'')]"

definition rename_column :: "string \<Rightarrow> string" where
  "rename_column col = (case map_of rename_map (lower col) of Some new \<Rightarrow> new | None \<Rightarrow> col)"

definition rename_step :: "dataframe \<Rightarrow> dataframe" where
  "rename_step df = df\<lparr>data := map (\<lambda>(n, c). (rename_column (canon_name n), c)) (data df)\<rparr>"

fun strip_column :: "column \<Rightarrow> column" where
  "strip_column (ObjCol xs) = ObjCol (map (\<lambda>x. OStr (strip (py_str x))) xs)"
| "strip_column (NumCol xs) = NumCol xs"

definition strip_step :: "dataframe \<Rightarrow> dataframe" where
  "strip_step df = df\<lparr>data := map (\<lambda>(n, c). (n, strip_column c)) (data df)\<rparr>"

definition coerce_step :: "(string \<Rightarrow> float64) \<Rightarrow> dataframe \<Rightarrow> dataframe" where
  "coerce_step parse df =
     foldl (\<lambda>d num_col. update_col num_col (\<lambda>c. NumCol (to_numeric parse c)) d) df
       [''MonthlyCharges'', ''TotalCharges'', ''tenure'']"

definition isin :: "string list \<Rightarrow> obj \<Rightarrow> bool" where
  "isin vs x = (case x of OStr s \<Rightarrow> s \<in> set vs | _ \<Rightarrow> False)"

definition churn_step :: "(real \<Rightarrow> string) \<Rightarrow> dataframe \<Rightarrow> dataframe" where
  "churn_step fmt df =
     (case map_of (data df) ''Churn'' of
        None \<Rightarrow> df
      | Some c \<Rightarrow>
          let churn = map (\<lambda>s. OStr (title s)) (astype_str fmt c);
              df1 = set_col ''Churn'' (ObjCol churn) df
          in loc_mask (map (isin [''Yes'', ''No'']) churn) df1)"

definition placeholders :: "(string \<times> string) list" where
  "placeholders =
    [(''No internet service'', ''No''), (''No phone service'', ''No''),
     (''Sem servi'' @ [CHR 0xC3, CHR 0xA7] @ ''o de internet'', ''No''),
     (''Sem servi'' @ [CHR 0xC3, CHR 0xA7] @ ''o de telefone'', ''No'')]"

fun replace_obj :: "(string \<times> string) list \<Rightarrow> obj \<Rightarrow> obj" where
  "replace_obj m (OStr s) = (case map_of m s of Some t \<Rightarrow> OStr t | None \<Rightarrow> OStr s)"
| "replace_obj m x = x"

fun replace_col :: "(string \<times> string) list \<Rightarrow> column \<Rightarrow> column" where
  "replace_col m (ObjCol xs) = ObjCol (map (replace_obj m) xs)"
| "replace_col m (NumCol xs) = NumCol xs"

definition service_columns :: "string list" where
  "service_columns =
    [''OnlineSecurity'', ''OnlineBackup'', ''DeviceProtection'', ''TechSupport'',
     ''StreamingTV'', ''StreamingMovies'', ''MultipleLines'']"

definition collapse_step :: "dataframe \<Rightarrow> dataframe" where
  "collapse_step df =
     foldl (\<lambda>d col. update_col col (replace_col placeholders) d) df service_columns"

definition senior_column :: "(real \<Rightarrow> string) \<Rightarrow> (string \<Rightarrow> float64) \<Rightarrow> column \<Rightarrow> column" where
  "senior_column fmt parse c =
     (let sc_num = to_numeric parse c
      in if gt (mean_bool (map (\<lambda>v. v \<noteq> NaN) sc_num)) (1 / 2)
         then ObjCol (map (\<lambda>v. OStr (if v = Num 1 then ''Yes'' else ''No'')) sc_num)
         else ObjCol (map (\<lambda>s. OStr (title s)) (astype_str fmt c)))"

definition senior_step :: "(real \<Rightarrow> string) \<Rightarrow> (string \<Rightarrow> float64) \<Rightarrow> dataframe \<Rightarrow> dataframe" where
  "senior_step fmt parse df = update_col ''SeniorCitizen'' (senior_column fmt parse) df"

definition dedup_step :: "dataframe \<Rightarrow> dataframe" where
  "dedup_step df =
     (case map_of (data df) ''customerID'' of
        None \<Rightarrow> df
      | Some key \<Rightarrow> drop_duplicates key df)"

definition before_dedup :: "(real \<Rightarrow> string) \<Rightarrow> (string \<Rightarrow> float64) \<Rightarrow> dataframe \<Rightarrow> dataframe" where
  "before_dedup fmt parse df =
     senior_step fmt parse (collapse_step (churn_step fmt (coerce_step parse
       (strip_step (rename_step df)))))"

definition standardize_columns :: "(real \<Rightarrow> string) \<Rightarrow> (string \<Rightarrow> float64) \<Rightarrow> dataframe \<Rightarrow> dataframe" where
  "standardize_columns fmt parse df = dedup_step (before_dedup fmt parse df)"

section \<open>create_features\<close>

text \<open>Comparing or dividing a text cell with a number raises \<open>TypeError\<close>; a
  NaN or \<open>None\<close> cell of an object column behaves as the number NaN.\<close>

fun numeric_operand :: "column \<Rightarrow> error + float64 list" where
  "numeric_operand (NumCol xs) = Inr xs"
| "numeric_operand (ObjCol xs) =
     (if \<forall>x \<in> set xs. x = ONaN \<or> x = ONone then Inr (map (\<lambda>_. NaN) xs) else Inl TypeError)"

text \<open>The float64 quotient of two finite numbers, the divisor above 0: at or beyond
  \<open>float64_overflow\<close>, the midpoint between the largest float64 and \<open>2 ^ 1024\<close>,
  it rounds to an infinity.\<close>

definition float64_overflow :: real where
  "float64_overflow = 2 ^ 1024 - 2 ^ 970"

definition float_div :: "real \<Rightarrow> real \<Rightarrow> float64" where
  "float_div c t =
     (if float64_overflow \<le> \<bar>c / t\<bar> then (if 0 < c then PInf else NInf) else Num (c / t))"

text \<open>\<open>tenure > 0\<close> and, for a tenure above 0, \<open>TotalCharges / tenure\<close>: a finite
  number over infinity is 0, an infinity over a finite number is that infinity, and
  the quotient is NaN for a NaN operand and for two infinities. (The quotients at a
  tenure that is not above 0 are discarded by \<open>np.where\<close>; the last equation
  stands for them too.)\<close>

fun positive :: "float64 \<Rightarrow> bool" where
  "positive (Num t) = (0 < t)"
| "positive PInf = True"
| "positive NaN = False"
| "positive NInf = False"

fun quotient :: "float64 \<Rightarrow> float64 \<Rightarrow> float64" where
  "quotient (Num c) (Num t) = float_div c t"
| "quotient (Num c) PInf = Num 0"
| "quotient PInf (Num t) = PInf"
| "quotient NInf (Num t) = NInf"
| "quotient c t = NaN"

text \<open>One row of \<open>np.where(tenure > 0, TotalCharges / tenure, np.nan)\<close>.\<close>

definition average_charge :: "float64 \<Rightarrow> float64 \<Rightarrow> float64" where
  "average_charge charges tenure = (if positive tenure then quotient charges tenure else NaN)"

definition create_features :: "dataframe \<Rightarrow> error + dataframe" where
  "create_features df =
     (case (map_of (data df) ''TotalCharges'', map_of (data df) ''tenure'') of
        (Some charges, Some tenure) \<Rightarrow>
          (case (numeric_operand tenure, numeric_operand charges) of
             (Inr ts, Inr cs) \<Rightarrow>
               Inr (set_col ''AverageMonthlyCharge'' (NumCol (map2 average_charge cs ts)) df)
           | _ \<Rightarrow> Inl TypeError)
      | _ \<Rightarrow> Inr df)"

section \<open>Aggregation\<close>

fun eq_str :: "string \<Rightarrow> column \<Rightarrow> bool list" where
  "eq_str s (ObjCol xs) = map (\<lambda>x. x = OStr s) xs"
| "eq_str s (NumCol xs) = map (\<lambda>_. False) xs"

text \<open>\<open>s.eq("Yes").mean() * 100.0\<close>\<close>

definition yes_rate :: "column \<Rightarrow> real option" where
  "yes_rate c = map_option (\<lambda>m. m * 100) (mean_bool (eq_str ''Yes'' c))"

text \<open>\<open>np.nan\<close> is \<open>None\<close>.\<close>

definition churn_rate :: "dataframe \<Rightarrow> real option" where
  "churn_rate df =
     (case map_of (data df) ''Churn'' of None \<Rightarrow> None | Some c \<Rightarrow> yes_rate c)"

text \<open>\<open>groupby\<close>: the groups are the values of the key column that are not missing,
  without repetition and in ascending order; a group holds the rows with that value.\<close>

datatype key = KNum float64 | KStr string

fun finite_values :: "float64 list \<Rightarrow> real list" where
  "finite_values [] = []"
| "finite_values (Num r # xs) = r # finite_values xs"
| "finite_values (x # xs) = finite_values xs"

fun group_keys :: "column \<Rightarrow> key list" where
  "group_keys (NumCol xs) =
     map KNum ((if NInf \<in> set xs then [NInf] else [])
       @ map Num (sort (remdups (finite_values xs)))
       @ (if PInf \<in> set xs then [PInf] else []))"
| "group_keys (ObjCol xs) =
     map KStr (sort (remdups (concat (map (\<lambda>x. case x of OStr s \<Rightarrow> [s] | _ \<Rightarrow> []) xs))))"

fun in_group :: "key \<Rightarrow> column \<Rightarrow> bool list" where
  "in_group k (NumCol xs) = map (\<lambda>x. x \<noteq> NaN \<and> k = KNum x) xs"
| "in_group k (ObjCol xs) = map (\<lambda>x. case x of OStr s \<Rightarrow> k = KStr s | _ \<Rightarrow> False) xs"

definition groupby_apply :: "column \<Rightarrow> column \<Rightarrow> (column \<Rightarrow> 'r) \<Rightarrow> (key \<times> 'r) list" where
  "groupby_apply keycol c f =
     map (\<lambda>k. (k, f (select_col (in_group k keycol) c))) (group_keys keycol)"

record 'd stats =
  overall_churn_rate_pct :: "real option"
  rate_tables :: "(string \<times> (key \<times> real option) list) list"
  describe_tables :: "(string \<times> (key \<times> 'd) list) list"
  plots :: "string list"

text \<open>The loop over the categories: \<open>df.groupby(cat)["Churn"]\<close> raises
  \<open>KeyError\<close> when the frame has no column \<open>Churn\<close>.\<close>

fun rate_loop ::
  "dataframe \<Rightarrow> string list \<Rightarrow> (string \<times> (key \<times> real option) list) list
    \<Rightarrow> error + (string \<times> (key \<times> real option) list) list" where
  "rate_loop df [] out = Inr out"
| "rate_loop df (cat # cats) out =
     (case map_of (data df) cat of
        None \<Rightarrow> rate_loop df cats out
      | Some keycol \<Rightarrow>
          (case map_of (data df) ''Churn'' of
             None \<Rightarrow> Inl (KeyError ''Column not found: Churn'')
           | Some churn \<Rightarrow>
               rate_loop df cats
                 (AList.update (''rate_'' @ lower cat) (groupby_apply keycol churn yes_rate) out)))"

text \<open>The loop over the numeric columns: \<open>df.groupby("Churn")\<close> raises
  \<open>KeyError\<close> when the frame has no column \<open>Churn\<close>. The summary that
  \<open>describe\<close> computes of a column is the library's and a parameter here.\<close>

fun describe_loop ::
  "(column \<Rightarrow> 'd) \<Rightarrow> dataframe \<Rightarrow> string list \<Rightarrow> (string \<times> (key \<times> 'd) list) list
    \<Rightarrow> error + (string \<times> (key \<times> 'd) list) list" where
  "describe_loop describe df [] out = Inr out"
| "describe_loop describe df (num # nums) out =
     (case map_of (data df) num of
        None \<Rightarrow> describe_loop describe df nums out
      | Some c \<Rightarrow>
          (case map_of (data df) ''Churn'' of
             None \<Rightarrow> Inl (KeyError ''Churn'')
           | Some churn \<Rightarrow>
               describe_loop describe df nums
                 (AList.update (''describe_'' @ num) (groupby_apply churn c describe) out)))"

text \<open>The charts go to the chart sink; the model keeps the names of the files written
  to the output directory, in order. The rendering itself, and a failure of it, is not
  modelled.\<close>

definition plot_files :: "dataframe \<Rightarrow> string list" where
  "plot_files df =
     (if ''Churn'' \<in> set (columns df) then [''plot_churn_distribuicao.png''] else []) @
     (if \<forall>c \<in> set [''Contract'', ''Churn'']. c \<in> set (columns df)
      then [''plot_churn_por_contrato.png''] else []) @
     (if \<forall>c \<in> set [''PaymentMethod'', ''Churn'']. c \<in> set (columns df)
      then [''plot_churn_por_pagamento.png''] else []) @
     (if \<forall>c \<in> set [''InternetService'', ''Churn'']. c \<in> set (columns df)
      then [''plot_churn_por_internet.png''] else []) @
     (if \<forall>c \<in> set [''MonthlyCharges'', ''Churn'']. c \<in> set (columns df)
      then [''plot_monthlycharges_por_churn.png''] else [])"

definition eda_and_plots :: "(column \<Rightarrow> 'd) \<Rightarrow> dataframe \<Rightarrow> error + 'd stats" where
  "eda_and_plots describe df =
     (case rate_loop df
             [''Contract'', ''PaymentMethod'', ''InternetService'', ''SeniorCitizen'',
              ''Partner'', ''Dependents''] [] of
        Inl e \<Rightarrow> Inl e
      | Inr rates \<Rightarrow>
          (case describe_loop describe df
                  [''MonthlyCharges'', ''TotalCharges'', ''AverageMonthlyCharge'', ''tenure''] [] of
             Inl e \<Rightarrow> Inl e
           | Inr descs \<Rightarrow>
               Inr \<lparr>overall_churn_rate_pct = churn_rate df, rate_tables = rates,
                    describe_tables = descs, plots = plot_files df\<rparr>))"

section \<open>main\<close>

text \<open>The run from the loaded frame \<open>df_raw\<close> on: what the report and the printed
  summary are written from.\<close>

record 'd run =
  original_shape :: "nat \<times> nat"
  clean :: dataframe
  dropped_dupes :: int
  run_stats :: "'d stats"

definition main ::
  "(real \<Rightarrow> string) \<Rightarrow> (string \<Rightarrow> float64) \<Rightarrow> (column \<Rightarrow> 'd) \<Rightarrow> dataframe \<Rightarrow> error + 'd run" where
  "main fmt parse describe df_raw =
     (let df = standardize_columns fmt parse df_raw;
          before = len df;
          (df, dropped) =
            (case map_of (data df) ''customerID'' of
               None \<Rightarrow> (df, 0)
             | Some key \<Rightarrow>
                 (let df' = drop_duplicates key df in (df', int before - int (len df'))))
      in case create_features df of
           Inl e \<Rightarrow> Inl e
         | Inr df \<Rightarrow>
             (case eda_and_plots describe df of
                Inl e \<Rightarrow> Inl e
              | Inr st \<Rightarrow>
                  Inr \<lparr>original_shape = (len df_raw, length (columns df_raw)), clean = df,
                       dropped_dupes = dropped, run_stats = st\<rparr>))"

section \<open>Loader\<close>

text \<open>
  The value that \<open>json.load\<close> returns. An object is its fields in order, with
  pairwise different keys, as a Python dict.
\<close>

datatype json = JNull | JBool bool | JNum real | JStr string | JArr "json list" | JObj "(string \<times> json) list"

text \<open>
  The frame the loader builds, as the records it is built from: the labels in order
  and, per row, the flattened record; a label that a record lacks is a missing cell.
  The typed columns that the library infers from these records are the
  \<open>dataframe\<close> of the sections above; that inference is not modelled.
\<close>

record raw_frame =
  raw_columns :: "string list"
  raw_rows :: "(string \<times> json) list list"

datatype load_error = JSONDecodeError

text \<open>
  \<open>pd.json_normalize(data, sep="_")\<close> on a list. A record that is an object is
  flattened: its fields that are not objects first, then the leaves of its nested
  objects under the keys of their path joined by the separator; a field that is an
  array stays a cell. The claims are about lists of objects; an element that is not an
  object is given the empty record here.
\<close>

fun is_dict :: "json \<Rightarrow> bool" where
  "is_dict (JObj kvs) = True"
| "is_dict v = False"

fun normalise_json :: "string \<Rightarrow> json \<Rightarrow> (string \<times> json) list" where
  "normalise_json key_string (JObj kvs) =
     concat (map (\<lambda>(key, v). normalise_json (if key_string = [] then key else key_string @ ''_'' @ key) v) kvs)"
| "normalise_json key_string v = [(key_string, v)]"

definition assign_all :: "(string \<times> json) list \<Rightarrow> (string \<times> json) list \<Rightarrow> (string \<times> json) list" where
  "assign_all d entries = foldl (\<lambda>d (k, v). AList.update k v d) d entries"

definition normalise_json_ordered :: "(string \<times> json) list \<Rightarrow> (string \<times> json) list" where
  "normalise_json_ordered kvs =
     assign_all (filter (\<lambda>(k, v). \<not> is_dict v) kvs)
       (normalise_json [] (JObj (filter (\<lambda>(k, v). is_dict v) kvs)))"

fun simple_json_normalize :: "json \<Rightarrow> (string \<times> json) list" where
  "simple_json_normalize (JObj kvs) = normalise_json_ordered kvs"
| "simple_json_normalize v = []"

text \<open>The labels of the frame: the keys of the records in the order of their first
  appearance.\<close>

definition unique_keys :: "string list \<Rightarrow> string list" where
  "unique_keys ks = foldl (\<lambda>acc k. if k \<in> set acc then acc else acc @ [k]) [] ks"

definition json_normalize :: "json list \<Rightarrow> raw_frame" where
  "json_normalize xs =
     (let rows = map simple_json_normalize xs
      in \<lparr>raw_columns = unique_keys (concat (map (map fst) rows)), raw_rows = rows\<rparr>)"

fun first_list :: "(string \<times> json) list \<Rightarrow> json list option" where
  "first_list [] = None"
| "first_list ((k, JArr v) # kvs) = Some v"
| "first_list (kv # kvs) = first_list kvs"

definition to_dataframe :: "json \<Rightarrow> raw_frame" where
  "to_dataframe obj =
     (case obj of
        JArr xs \<Rightarrow> json_normalize xs
      | JObj kvs \<Rightarrow>
          (case first_list kvs of
             Some v \<Rightarrow> json_normalize v
           | None \<Rightarrow> json_normalize [obj])
      | _ \<Rightarrow> \<lparr>raw_columns = [], raw_rows = []\<rparr>)"

text \<open>\<open>load_json\<close>: the text of the file is read by \<open>json.load\<close>, which raises when
  the text is not JSON (\<open>None\<close> here).\<close>

definition load_json :: "json option \<Rightarrow> load_error + raw_frame" where
  "load_json raw = (case raw of None \<Rightarrow> Inl JSONDecodeError | Some obj \<Rightarrow> Inr (to_dataframe obj))"

section \<open>Auxiliary notions for the proofs\<close>

text \<open>The loop \<open>for col in names: if col in df.columns: df[col] = f(df[col])\<close>, seen
  from the columns: a column is rewritten when its label is among the names, and
  only the first column of a label.\<close>

fun entries_in ::
  "string set \<Rightarrow> (column \<Rightarrow> column) \<Rightarrow> (string \<times> column) list \<Rightarrow> (string \<times> column) list" where
  "entries_in S f [] = []"
| "entries_in S f ((n, c) # xs) = (n, if n \<in> S then f c else c) # entries_in (S - {n}) f xs"

text \<open>The label a raw column gets: lines 43 and 45 to 77 of the source.\<close>

definition std_name :: "string \<Rightarrow> string" where
  "std_name n = rename_column (canon_name n)"

text \<open>A column whose cells are all the text \<open>Yes\<close> or the text \<open>No\<close>.\<close>

fun yes_no :: "column \<Rightarrow> bool" where
  "yes_no (ObjCol xs) = list_all (\<lambda>x. x = OStr ''Yes'' \<or> x = OStr ''No'') xs"
| "yes_no (NumCol xs) = False"

text \<open>Frames the theorems are run on.\<close>

definition churn_example :: dataframe where
  "churn_example =
     \<lparr>index = [0, 1, 2, 3],
      data = [(''churn '', ObjCol [OStr ''yes'', OStr ''NO'', OStr ''Unknown'', ONaN]),
              (''tenure'', NumCol [Num 1, Num 0, NaN, Num 3])]\<rparr>"

text \<open>Every column is as long as the index.\<close>

definition aligned :: "dataframe \<Rightarrow> bool" where
  "aligned df = list_all (\<lambda>(n, c). col_len c = length (index df)) (data df)"

text \<open>The cells of a column, whatever its type, and the rows at which a value of
  the column occurs for the first time.\<close>

datatype cell = CNum float64 | CObj obj

fun cells :: "column \<Rightarrow> cell list" where
  "cells (NumCol xs) = map CNum xs"
| "cells (ObjCol xs) = map CObj xs"

definition first_rows :: "column \<Rightarrow> nat list" where
  "first_rows key = filter (\<lambda>i. cells key ! i \<notin> set (take i (cells key))) [0..<col_len key]"

text \<open>\<open>df.iloc[rows]\<close>: the rows at the given positions, in that order.\<close>

fun take_col :: "nat list \<Rightarrow> column \<Rightarrow> column" where
  "take_col rows (NumCol xs) = NumCol (map (nth xs) rows)"
| "take_col rows (ObjCol xs) = ObjCol (map (nth xs) rows)"

definition iloc :: "nat list \<Rightarrow> dataframe \<Rightarrow> dataframe" where
  "iloc rows df =
     \<lparr>index = map (nth (index df)) rows, data = map (\<lambda>(n, c). (n, take_col rows c)) (data df)\<rparr>"

definition dup_example :: dataframe where
  "dup_example =
     \<lparr>index = [0, 1, 2, 3],
      data = [(''customerID'', ObjCol [OStr ''A'', OStr ''B'', OStr ''A '', OStr ''B'']),
              (''Churn'', ObjCol [OStr ''Yes'', OStr ''maybe'', OStr ''No'', OStr ''No''])]\<rparr>"

definition two_rows :: dataframe where
  "two_rows =
     \<lparr>index = [0, 1],
      data = [(''customerID'', ObjCol [OStr ''A'', OStr ''A'']),
              (''Churn'', ObjCol [OStr ''Yes'', OStr ''No''])]\<rparr>"

definition two_rows_run :: "unit run" where
  "two_rows_run =
     \<lparr>original_shape = (2, 2),
      clean = \<lparr>index = [0], data = [(''customerID'', ObjCol [OStr ''A'']), (''Churn'', ObjCol [OStr ''Yes''])]\<rparr>,
      dropped_dupes = 0,
      run_stats = \<lparr>overall_churn_rate_pct = Some 100, rate_tables = [], describe_tables = [],
                   plots = [''plot_churn_distribuicao.png'']\<rparr>\<rparr>"

text \<open>The number of cells of a column that \<open>to_numeric\<close> reads as a number.\<close>

definition numeric_count :: "(string \<Rightarrow> float64) \<Rightarrow> column \<Rightarrow> nat" where
  "numeric_count parse c = length (filter (\<lambda>v. v \<noteq> NaN) (to_numeric parse c))"

definition senior_example :: dataframe where
  "senior_example =
     \<lparr>index = [0, 1, 2, 3],
      data = [(''SeniorCitizen'', NumCol [Num 0, Num 1, Num 1, Num 0])]\<rparr>"

definition parse_one :: "string \<Rightarrow> float64" where
  "parse_one s = (if s = ''1'' then Num 1 else NaN)"

fun is_numeric :: "column \<Rightarrow> bool" where
  "is_numeric (NumCol xs) = True"
| "is_numeric (ObjCol xs) = False"

definition charges_example :: dataframe where
  "charges_example =
     \<lparr>index = [0, 1, 2, 3, 4],
      data = [(''TotalCharges'', NumCol [Num 50, Num 50, NaN, Num 30, PInf]),
              (''tenure'', NumCol [Num 0, Num 2, Num 1, NaN, Num 1])]\<rparr>"

text \<open>The overall rate in the words of the specification: the count of the rows
  whose outcome is \<open>Yes\<close>, divided by the count of the rows whose outcome is not
  missing, times 100; unavailable without the column, or without any such row.\<close>

definition count_text :: "string \<Rightarrow> column \<Rightarrow> nat" where
  "count_text s c = length (filter id (eq_str s c))"

fun non_missing :: "column \<Rightarrow> nat" where
  "non_missing (NumCol xs) = length (filter (\<lambda>x. x \<noteq> NaN) xs)"
| "non_missing (ObjCol xs) = length (filter (\<lambda>x. x \<noteq> ONaN \<and> x \<noteq> ONone) xs)"

definition spec_rate :: "dataframe \<Rightarrow> real option" where
  "spec_rate df =
     (case map_of (data df) ''Churn'' of
        None \<Rightarrow> None
      | Some c \<Rightarrow>
          if non_missing c = 0 then None
          else Some (real (count_text ''Yes'' c) / real (non_missing c) * 100))"

definition rate_example :: dataframe where
  "rate_example =
     \<lparr>index = [0, 1, 2, 3],
      data = [(''Churn'', ObjCol [OStr ''Yes'', OStr ''No'', OStr ''Unknown'', OStr ''yes''])]\<rparr>"

definition rate_example_run :: "unit run" where
  "rate_example_run =
     \<lparr>original_shape = (4, 1),
      clean = \<lparr>index = [0, 1, 3], data = [(''Churn'', ObjCol [OStr ''Yes'', OStr ''No'', OStr ''Yes''])]\<rparr>,
      dropped_dupes = 0,
      run_stats = \<lparr>overall_churn_rate_pct = Some (200 / 3), rate_tables = [], describe_tables = [],
                   plots = [''plot_churn_distribuicao.png'']\<rparr>\<rparr>"

definition no_churn_example :: dataframe where
  "no_churn_example = \<lparr>index = [0], data = [(''MonthlyCharges'', NumCol [Num 10])]\<rparr>"

text \<open>The columns that the two loops of \<open>eda_and_plots\<close> run over.\<close>

definition category_columns :: "string list" where
  "category_columns =
     [''Contract'', ''PaymentMethod'', ''InternetService'', ''SeniorCitizen'', ''Partner'', ''Dependents'']"

definition numeric_columns :: "string list" where
  "numeric_columns = [''MonthlyCharges'', ''TotalCharges'', ''AverageMonthlyCharge'', ''tenure'']"

text \<open>The mask of two selections in a row: \<open>m2\<close> runs over the rows that
  \<open>m1\<close> keeps.\<close>

fun and_then :: "bool list \<Rightarrow> bool list \<Rightarrow> bool list" where
  "and_then [] m2 = []"
| "and_then (False # m1) m2 = False # and_then m1 m2"
| "and_then (True # m1) [] = False # and_then m1 []"
| "and_then (True # m1) (b # m2) = b # and_then m1 m2"




text \<open>The key paths to the leaves of a record, a path joined by underscores, and
  records whose keys are all non-empty.\<close>

fun is_list :: "json \<Rightarrow> bool" where
  "is_list (JArr xs) = True"
| "is_list v = False"

fun leaf_paths :: "json \<Rightarrow> string list list" where
  "leaf_paths (JObj kvs) = concat (map (\<lambda>(k, v). map ((#) k) (leaf_paths v)) kvs)"
| "leaf_paths v = [[]]"

fun join_path :: "string list \<Rightarrow> string" where
  "join_path [] = []"
| "join_path [k] = k"
| "join_path (k # ks) = k @ ''_'' @ join_path ks"

fun keys_nonempty :: "json \<Rightarrow> bool" where
  "keys_nonempty (JObj kvs) = list_all (\<lambda>(k, v). k \<noteq> [] \<and> keys_nonempty v) kvs"
| "keys_nonempty v = True"


definition records_example :: "json list" where
  "records_example =
     [JObj [(''id'', JNum 7), (''account'', JObj [(''Churn'', JStr ''Yes''), (''charges'', JObj [(''Monthly'', JNum 10)])])],
      JObj [(''id'', JNum 8), (''phone'', JStr ''No'')]]"

text \<open>The rows of the raw frame with a valid outcome: every row when no column is
  renamed to \<open>Churn\<close>, else the rows whose outcome, trimmed and title-cased, is
  \<open>Yes\<close> or \<open>No\<close>.\<close>

definition valid_outcome :: "(real \<Rightarrow> string) \<Rightarrow> dataframe \<Rightarrow> bool list" where
  "valid_outcome fmt df =
     (case map_of (data (rename_step df)) ''Churn'' of
        None \<Rightarrow> replicate (length (index df)) True
      | Some c \<Rightarrow> map (\<lambda>s. title s \<in> set [''Yes'', ''No'']) (astype_str fmt (strip_column c)))"

text \<open>Stand-ins for the library's two text functions, for frames in which no number
  is written out as text and no text is read as a number.\<close>

definition fmt_none :: "real \<Rightarrow> string" where
  "fmt_none r = []"

definition parse_none :: "string \<Rightarrow> float64" where
  "parse_none s = NaN"

definition first_invalid_example :: dataframe where
  "first_invalid_example =
     \<lparr>index = [0, 1],
      data = [(''customerID'', ObjCol [OStr ''A'', OStr ''A'']),
              (''Churn'', ObjCol [OStr ''maybe'', OStr ''Yes''])]\<rparr>"

text \<open>The finite cells and the infinite cells of a numeric column.\<close>

fun is_finite :: "float64 \<Rightarrow> bool" where
  "is_finite (Num r) = True"
| "is_finite x = False"

fun is_inf :: "float64 \<Rightarrow> bool" where
  "is_inf PInf = True"
| "is_inf NInf = True"
| "is_inf x = False"

text \<open>A frame whose quotient overflows: \<open>2 ^ 1023\<close> and a half are float64 values,
  their quotient \<open>2 ^ 1024\<close> is beyond the largest one.\<close>

definition huge :: real where
  "huge = 2 ^ 1023"

definition overflow_example :: dataframe where
  "overflow_example =
     \<lparr>index = [0],
      data = [(''TotalCharges'', NumCol [Num huge]), (''tenure'', NumCol [Num (1 / 2)])]\<rparr>"

text \<open>The rows that line 123 keeps: every row without an identifier column, else the
  rows whose identifier was not seen at an earlier row.\<close>

definition dedup_mask :: "dataframe \<Rightarrow> bool list" where
  "dedup_mask d =
     (case map_of (data d) ''customerID'' of
        None \<Rightarrow> replicate (length (index d)) True
      | Some key \<Rightarrow> map Not (duplicated key))"

section \<open>Association lists, masks and the labels of the columns\<close>

lemma map_of_map_snd: "map_of (map (\<lambda>(n, c). (n, g c)) xs) k = map_option g (map_of xs k)"
  by (induction xs) auto

lemma map_fst_map_snd: "map fst (map (\<lambda>(n, c). (n, g c)) xs) = map fst xs"
  by (induction xs) auto

lemma map_fst_map_entry: "map fst (AList.map_entry k f xs) = map fst xs"
  by (induction xs) auto

lemma map_of_map_entry_other: "k' \<noteq> k \<Longrightarrow> map_of (AList.map_entry k f xs) k' = map_of xs k'"
  by (simp add: map_of_map_entry)

lemma map_of_map_entry_same: "map_of (AList.map_entry k f xs) k = map_option f (map_of xs k)"
  by (simp add: map_of_map_entry split: option.splits)

lemma map_of_entries_in:
  "map_of (entries_in S f xs) k = (if k \<in> S then map_option f (map_of xs k) else map_of xs k)"
  by (induction S f xs rule: entries_in.induct) auto

lemma map_fst_entries_in: "map fst (entries_in S f xs) = map fst xs"
  by (induction S f xs rule: entries_in.induct) auto

lemma map_fst_update_present: "map_of xs k = Some v \<Longrightarrow> map fst (AList.update k w xs) = map fst xs"
  by (induction xs) (auto split: if_splits)

lemma select_subset: "set (select m xs) \<subseteq> set xs"
  by (induction m xs rule: select.induct) auto

lemma select_map_pred: "x \<in> set (select (map P xs) xs) \<Longrightarrow> P x"
  by (induction xs) (auto split: if_splits)

lemma select_map_pred_map: "x \<in> set (select (map P (map h xs)) (map h xs)) \<Longrightarrow> P x"
  by (rule select_map_pred)

lemma yes_no_select: "yes_no c \<Longrightarrow> yes_no (select_col m c)"
  by (cases c) (auto simp: list_all_iff dest: subsetD [OF select_subset])

text \<open>No step after the renaming changes the labels.\<close>

lemma columns_loc_mask: "columns (loc_mask m df) = columns df"
  by (auto simp: columns_def loc_mask_def)

lemma columns_update_col: "columns (update_col k f df) = columns df"
  by (simp add: columns_def update_col_def map_fst_map_entry)

lemma columns_foldl_update_col: "columns (foldl (\<lambda>d k. update_col k f d) df ks) = columns df"
  by (induction ks arbitrary: df) (simp_all add: columns_update_col)

lemma columns_rename_step: "columns (rename_step df) = map std_name (columns df)"
  by (simp add: columns_def rename_step_def std_name_def case_prod_unfold)

lemma columns_strip_step: "columns (strip_step df) = columns df"
  by (auto simp: columns_def strip_step_def)

lemma columns_coerce_step: "columns (coerce_step parse df) = columns df"
  by (simp add: coerce_step_def columns_update_col)

lemma columns_churn_step: "columns (churn_step fmt df) = columns df"
  by (auto simp: churn_step_def Let_def columns_loc_mask split: option.splits)
     (simp add: columns_def set_col_def map_fst_update_present)

lemma columns_collapse_step: "columns (collapse_step df) = columns df"
  by (simp add: collapse_step_def service_columns_def columns_update_col)

lemma columns_senior_step: "columns (senior_step fmt parse df) = columns df"
  by (simp add: senior_step_def columns_update_col)

lemma columns_dedup_step: "columns (dedup_step df) = columns df"
  by (simp add: dedup_step_def drop_duplicates_def columns_loc_mask split: option.splits)

lemma columns_before_dedup: "columns (before_dedup fmt parse df) = map std_name (columns df)"
  by (simp add: before_dedup_def columns_senior_step columns_collapse_step columns_churn_step
      columns_coerce_step columns_strip_step columns_rename_step)

lemma columns_standardize: "columns (standardize_columns fmt parse df) = map std_name (columns df)"
  by (simp add: standardize_columns_def columns_dedup_step columns_before_dedup)

section \<open>Masks\<close>

lemma length_select: "length m = length xs \<Longrightarrow> length (select m xs) = length (filter id m)"
  by (induction m xs rule: select.induct) auto

lemma select_nth:
  "length m = length xs \<Longrightarrow> select m xs = map (nth xs) (filter (nth m) [0..<length xs])"
proof (induction m xs rule: select.induct)
  case (1 b bs x xs)
  then have len: "length bs = length xs" by simp
  have upt: "[0..<Suc (length xs)] = 0 # map Suc [0..<length xs]"
    by (simp add: upt_conv_Cons map_Suc_upt del: upt_Suc)
  have tl: "map (nth (x # xs)) (filter (nth (b' # bs)) (map Suc [0..<length xs]))
        = map (nth xs) (filter (nth bs) [0..<length xs])" for b'
    by (simp add: filter_map o_def)
  have "map (nth (x # xs)) (filter (nth (b # bs)) [0..<length (x # xs)])
      = (if b then [x] else []) @ map (nth xs) (filter (nth bs) [0..<length xs])"
    unfolding length_Cons upt by (simp add: tl)
  moreover have "select (b # bs) (x # xs) = (if b then [x] else []) @ select bs xs"
    by simp
  moreover have "select bs xs = map (nth xs) (filter (nth bs) [0..<length xs])"
    using 1 len by (cases b) simp_all
  ultimately show ?case by simp
qed simp_all

lemma select_all: "select (replicate (length xs) True) xs = xs"
  by (induction xs) auto

lemma length_duplicated_from: "length (duplicated_from seen xs) = length xs"
  by (induction xs arbitrary: seen) auto

lemma duplicated_from_nth:
  "i < length xs \<Longrightarrow> duplicated_from seen xs ! i = (xs ! i \<in> set seen \<union> set (take i xs))"
proof (induction xs arbitrary: seen i)
  case Nil then show ?case by simp
next
  case (Cons x xs)
  show ?case
  proof (cases i)
    case 0 then show ?thesis by simp
  next
    case (Suc k)
    with Cons.prems have "k < length xs" by simp
    from Cons.IH [OF this, of "x # seen"] Suc show ?thesis by auto
  qed
qed

lemma kept_distinct:
  "distinct (select (map Not (duplicated_from seen xs)) xs)
   \<and> set (select (map Not (duplicated_from seen xs)) xs) \<inter> set seen = {}"
proof (induction xs arbitrary: seen)
  case Nil then show ?case by simp
next
  case (Cons x xs)
  from Cons.IH [of "x # seen"] show ?case by auto
qed

lemma duplicated_from_distinct:
  "distinct xs \<Longrightarrow> set xs \<inter> set seen = {} \<Longrightarrow> duplicated_from seen xs = replicate (length xs) False"
  by (induction xs arbitrary: seen) auto

lemma kept_rows:
  "select (map Not (duplicated_from [] xs)) ys =
     map (nth ys) (filter (\<lambda>i. xs ! i \<notin> set (take i xs)) [0..<length xs])"
  if "length ys = length xs"
proof -
  have "select (map Not (duplicated_from [] xs)) ys =
      map (nth ys) (filter (nth (map Not (duplicated_from [] xs))) [0..<length ys])"
    using that by (simp add: select_nth length_duplicated_from)
  also have "filter (nth (map Not (duplicated_from [] xs))) [0..<length ys] =
      filter (\<lambda>i. xs ! i \<notin> set (take i xs)) [0..<length xs]"
    using that by (auto intro!: filter_cong simp: length_duplicated_from duplicated_from_nth)
  finally show ?thesis .
qed

lemma first_rows_Num: "first_rows (NumCol xs) = filter (\<lambda>i. xs ! i \<notin> set (take i xs)) [0..<length xs]"
  by (auto simp: first_rows_def take_map intro!: filter_cong)

lemma first_rows_Obj: "first_rows (ObjCol xs) = filter (\<lambda>i. xs ! i \<notin> set (take i xs)) [0..<length xs]"
  by (auto simp: first_rows_def take_map intro!: filter_cong)

lemma length_duplicated: "length (duplicated key) = col_len key"
  by (cases key) (simp_all add: length_duplicated_from)

lemma select_not_duplicated:
  "length ys = col_len key \<Longrightarrow> select (map Not (duplicated key)) ys = map (nth ys) (first_rows key)"
  by (cases key) (simp_all add: kept_rows first_rows_Num first_rows_Obj)

lemma select_col_not_duplicated:
  "col_len c = col_len key \<Longrightarrow> select_col (map Not (duplicated key)) c = take_col (first_rows key) c"
  by (cases c) (simp_all add: select_not_duplicated)

lemma drop_duplicates_iloc:
  assumes "aligned df" and "col_len key = length (index df)"
  shows "drop_duplicates key df = iloc (first_rows key) df"
proof -
  from assms have "\<forall>(n, c) \<in> set (data df). col_len c = col_len key"
    by (auto simp: aligned_def list_all_iff)
  then have "map (\<lambda>(n, c). (n, select_col (map Not (duplicated key)) c)) (data df)
      = map (\<lambda>(n, c). (n, take_col (first_rows key) c)) (data df)"
    by (auto simp: select_col_not_duplicated)
  with assms(2) show ?thesis
    by (simp add: drop_duplicates_def loc_mask_def iloc_def select_not_duplicated)
qed

lemma cells_not_duplicated:
  "distinct (cells (select_col (map Not (duplicated key)) key))"
proof (cases key)
  case (NumCol xs)
  have "inj CNum" by (simp add: inj_def)
  with kept_distinct [of "[]" xs] NumCol show ?thesis by (simp add: distinct_map inj_on_def)
next
  case (ObjCol xs)
  have "inj CObj" by (simp add: inj_def)
  with kept_distinct [of "[]" xs] ObjCol show ?thesis by (simp add: distinct_map inj_on_def)
qed


section \<open>Alignment\<close>

lemma aligned_col: "aligned df \<Longrightarrow> map_of (data df) k = Some c \<Longrightarrow> col_len c = length (index df)"
  by (auto simp: aligned_def list_all_iff dest!: map_of_SomeD)

lemma col_len_select_col:
  "col_len c = length m \<Longrightarrow> col_len (select_col m c) = length (filter id m)"
  by (cases c) (simp_all add: length_select)

lemma aligned_loc_mask:
  "aligned df \<Longrightarrow> length m = length (index df) \<Longrightarrow> aligned (loc_mask m df)"
  by (auto simp: aligned_def loc_mask_def list_all_iff length_select col_len_select_col)

lemma list_all_map_entry:
  "list_all P xs \<Longrightarrow> (\<And>v. P (k, v) \<Longrightarrow> P (k, f v)) \<Longrightarrow> list_all P (AList.map_entry k f xs)"
  by (induction xs) auto

lemma list_all_update:
  "list_all P xs \<Longrightarrow> P (k, v) \<Longrightarrow> list_all P (AList.update k v xs)"
  by (induction xs) auto

lemma aligned_update_col:
  "aligned df \<Longrightarrow> (\<And>c. col_len (f c) = col_len c) \<Longrightarrow> aligned (update_col k f df)"
  unfolding aligned_def update_col_def by (auto intro!: list_all_map_entry)

lemma aligned_set_col:
  "aligned df \<Longrightarrow> col_len c = length (index df) \<Longrightarrow> aligned (set_col k c df)"
  by (simp add: aligned_def set_col_def list_all_update)

lemma index_update_col: "index (update_col k f df) = index df"
  by (simp add: update_col_def)

lemma aligned_rename_step: "aligned df \<Longrightarrow> aligned (rename_step df)"
  by (auto simp: aligned_def rename_step_def list_all_iff)

lemma col_len_strip_column: "col_len (strip_column c) = col_len c"
  by (cases c) simp_all

lemma aligned_strip_step: "aligned df \<Longrightarrow> aligned (strip_step df)"
  by (auto simp: aligned_def strip_step_def list_all_iff col_len_strip_column)

lemma length_to_numeric: "length (to_numeric parse c) = col_len c"
  by (cases c) simp_all

lemma length_astype_str: "length (astype_str fmt c) = col_len c"
  by (cases c) simp_all

lemma aligned_coerce_step: "aligned df \<Longrightarrow> aligned (coerce_step parse df)"
  by (simp add: coerce_step_def aligned_update_col length_to_numeric)

lemma aligned_churn_step:
  assumes "aligned df"
  shows "aligned (churn_step fmt df)"
proof (cases "map_of (data df) ''Churn''")
  case None
  with assms show ?thesis by (simp add: churn_step_def)
next
  case (Some c)
  with assms have len: "col_len c = length (index df)" by (simp add: aligned_col)
  define churn where "churn = map (\<lambda>s. OStr (title s)) (astype_str fmt c)"
  have "length churn = length (index df)" by (simp add: churn_def length_astype_str len)
  moreover from this assms have "aligned (set_col ''Churn'' (ObjCol churn) df)"
    by (simp add: aligned_set_col)
  moreover have "index (set_col ''Churn'' (ObjCol churn) df) = index df"
    by (simp add: set_col_def)
  ultimately have "aligned (loc_mask (map (isin [''Yes'', ''No'']) churn) (set_col ''Churn'' (ObjCol churn) df))"
    by (simp add: aligned_loc_mask)
  with Some show ?thesis by (simp add: churn_step_def Let_def churn_def)
qed

lemma col_len_replace_col: "col_len (replace_col m c) = col_len c"
  by (cases c) simp_all

lemma aligned_collapse_step: "aligned df \<Longrightarrow> aligned (collapse_step df)"
  by (simp add: collapse_step_def service_columns_def aligned_update_col col_len_replace_col)

lemma col_len_senior_column: "col_len (senior_column fmt parse c) = col_len c"
  by (simp add: senior_column_def Let_def length_to_numeric length_astype_str)

lemma aligned_senior_step: "aligned df \<Longrightarrow> aligned (senior_step fmt parse df)"
  by (simp add: senior_step_def aligned_update_col col_len_senior_column)

lemma aligned_before_dedup: "aligned df \<Longrightarrow> aligned (before_dedup fmt parse df)"
  by (simp add: before_dedup_def aligned_senior_step aligned_collapse_step aligned_churn_step
      aligned_coerce_step aligned_strip_step aligned_rename_step)

lemma aligned_drop_duplicates:
  "aligned df \<Longrightarrow> col_len key = length (index df) \<Longrightarrow> aligned (drop_duplicates key df)"
  unfolding drop_duplicates_def by (rule aligned_loc_mask) (simp_all add: length_duplicated)

lemma aligned_standardize: "aligned df \<Longrightarrow> aligned (standardize_columns fmt parse df)"
  by (auto simp: standardize_columns_def dedup_step_def aligned_before_dedup
      aligned_drop_duplicates aligned_col split: option.splits)

lemma select_col_all: "select_col (replicate (col_len c) True) c = c"
  by (cases c) (simp_all add: select_all)

lemma loc_mask_all:
  assumes "aligned df"
  shows "loc_mask (replicate (length (index df)) True) df = df"
proof -
  have "(case p of (n, c) \<Rightarrow> (n, select_col (replicate (length (index df)) True) c)) = p"
    if "p \<in> set (data df)" for p
  proof -
    obtain n c where p: "p = (n, c)" by (cases p)
    with that assms have "col_len c = length (index df)"
      by (auto simp: aligned_def list_all_iff)
    with select_col_all [of c] p show ?thesis by simp
  qed
  then have "map (\<lambda>(n, c). (n, select_col (replicate (length (index df)) True) c)) (data df) = data df"
    by (intro map_idI)
  then show ?thesis by (simp add: loc_mask_def select_all)
qed

section \<open>Category collapsing\<close>

lemma replace_obj_idem:
  "replace_obj placeholders (replace_obj placeholders x) = replace_obj placeholders x"
  by (cases x) (simp_all add: placeholders_def)

lemma replace_col_idem:
  "replace_col placeholders (replace_col placeholders c) = replace_col placeholders c"
  by (cases c) (simp_all add: replace_obj_idem)

lemma map_entry_entries_in:
  "k \<notin> S \<Longrightarrow> AList.map_entry k f (entries_in S f xs) = entries_in (insert k S) f xs"
proof (induction xs arbitrary: S)
  case Nil
  then show ?case by simp
next
  case (Cons p xs)
  obtain n c where p: "p = (n, c)" by (cases p)
  show ?case
  proof (cases "n = k")
    case True
    with Cons.prems have "insert k S - {n} = S - {n}" by auto
    with True Cons.prems p show ?thesis by simp
  next
    case False
    then have "insert k S - {n} = insert k (S - {n})" by auto
    with False Cons p show ?thesis by simp
  qed
qed

lemma entries_in_empty: "entries_in {} f xs = xs"
  by (induction xs) auto

lemma foldl_map_entry:
  "distinct ks \<Longrightarrow> set ks \<inter> S = {} \<Longrightarrow>
   foldl (\<lambda>d k. AList.map_entry k f d) (entries_in S f xs) ks = entries_in (S \<union> set ks) f xs"
proof (induction ks arbitrary: S)
  case Nil
  then show ?case by simp
next
  case (Cons k ks)
  from Cons.prems have "k \<notin> S" by auto
  then have "AList.map_entry k f (entries_in S f xs) = entries_in (insert k S) f xs"
    by (rule map_entry_entries_in)
  moreover from Cons.prems have "distinct ks" "set ks \<inter> insert k S = {}" by auto
  ultimately show ?case using Cons.IH [of "insert k S"] by simp
qed

lemma entries_in_idem:
  "(\<And>c. f (f c) = f c) \<Longrightarrow> entries_in S f (entries_in S f xs) = entries_in S f xs"
  by (induction S f xs rule: entries_in.induct) auto

lemma foldl_update_col:
  "data (foldl (\<lambda>d k. update_col k f d) df ks) = foldl (\<lambda>d k. AList.map_entry k f d) (data df) ks"
  "index (foldl (\<lambda>d k. update_col k f d) df ks) = index df"
  by (induction ks arbitrary: df) (simp_all add: update_col_def)

lemma collapse_data:
  "data (collapse_step df) =
     entries_in (set service_columns) (replace_col placeholders) (data df)"
proof -
  have "distinct service_columns" by (simp add: service_columns_def)
  from foldl_map_entry [OF this, of "{}" "replace_col placeholders" "data df"]
  show ?thesis by (simp add: collapse_step_def foldl_update_col entries_in_empty)
qed

lemma collapse_index: "index (collapse_step df) = index df"
  by (simp add: collapse_step_def foldl_update_col)

text \<open>
  C9. Collapsing the placeholders is idempotent: on a column, replacing the four
  placeholder texts by \<open>No\<close> a second time changes no cell; and running the whole
  loop over the service-flag columns on a frame it has already been run on returns
  that frame.
\<close>

theorem collapse_idempotent:
  "replace_col placeholders (replace_col placeholders c) = replace_col placeholders c
   \<and> collapse_step (collapse_step df) = collapse_step df"
proof
  show "replace_col placeholders (replace_col placeholders c) = replace_col placeholders c"
    by (rule replace_col_idem)
  have "data (collapse_step (collapse_step df)) = data (collapse_step df)"
    by (simp add: collapse_data entries_in_idem replace_col_idem)
  moreover have "index (collapse_step (collapse_step df)) = index (collapse_step df)"
    by (simp add: collapse_index)
  ultimately show "collapse_step (collapse_step df) = collapse_step df"
    by simp
qed

section \<open>The outcome column\<close>

lemma get_loc_mask: "map_of (data (loc_mask m df)) k = map_option (select_col m) (map_of (data df) k)"
  by (simp add: loc_mask_def map_of_map_snd)

lemma get_update_col_other: "k' \<noteq> k \<Longrightarrow> map_of (data (update_col k f df)) k' = map_of (data df) k'"
  by (simp add: update_col_def map_of_map_entry_other)

lemma get_update_col_same: "map_of (data (update_col k f df)) k = map_option f (map_of (data df) k)"
  by (simp add: update_col_def map_of_map_entry_same)

lemma get_set_col: "map_of (data (set_col k c df)) k' = (if k' = k then Some c else map_of (data df) k')"
  by (simp add: set_col_def update_conv')

lemma get_collapse_other:
  "k \<notin> set service_columns \<Longrightarrow> map_of (data (collapse_step df)) k = map_of (data df) k"
  by (simp add: collapse_data map_of_entries_in)

lemma churn_step_yes_no:
  assumes "map_of (data (churn_step fmt df)) ''Churn'' = Some c"
  shows "yes_no c"
proof (cases "map_of (data df) ''Churn''")
  case None
  with assms show ?thesis by (simp add: churn_step_def)
next
  case (Some c0)
  define churn where "churn = map (\<lambda>s. OStr (title s)) (astype_str fmt c0)"
  from assms Some have c: "c = ObjCol (select (map (isin [''Yes'', ''No'']) churn) churn)"
    by (simp add: churn_step_def Let_def get_loc_mask get_set_col churn_def)
  have "x = OStr ''Yes'' \<or> x = OStr ''No''"
    if "x \<in> set (select (map (isin [''Yes'', ''No'']) churn) churn)" for x
  proof -
    from that have "isin [''Yes'', ''No''] x" by (rule select_map_pred)
    then show ?thesis by (cases x) (auto simp: isin_def)
  qed
  with c show ?thesis by (simp add: list_all_iff)
qed

lemma before_dedup_yes_no:
  assumes "map_of (data (before_dedup fmt parse df)) ''Churn'' = Some c"
  shows "yes_no c"
proof -
  have "''Churn'' \<notin> set service_columns" by (simp add: service_columns_def)
  with assms have "map_of (data (churn_step fmt (coerce_step parse (strip_step (rename_step df))))) ''Churn'' = Some c"
    by (simp add: before_dedup_def senior_step_def get_update_col_other get_collapse_other)
  then show ?thesis by (rule churn_step_yes_no)
qed

lemma standardize_yes_no:
  assumes "map_of (data (standardize_columns fmt parse df)) ''Churn'' = Some c"
  shows "yes_no c"
proof (cases "map_of (data (before_dedup fmt parse df)) ''customerID''")
  case None
  with assms show ?thesis
    by (simp add: standardize_columns_def dedup_step_def before_dedup_yes_no)
next
  case (Some key)
  with assms obtain c0 where "map_of (data (before_dedup fmt parse df)) ''Churn'' = Some c0"
    and "c = select_col (map Not (duplicated key)) c0"
    by (auto simp: standardize_columns_def dedup_step_def drop_duplicates_def get_loc_mask)
  then show ?thesis by (simp add: before_dedup_yes_no yes_no_select)
qed

section \<open>What the steps leave alone\<close>

lemma strip_step_get: "map_of (data (strip_step d)) k = map_option strip_column (map_of (data d) k)"
  by (simp add: strip_step_def map_of_map_snd)

lemma coerce_step_get_other:
  "k \<notin> {''MonthlyCharges'', ''TotalCharges'', ''tenure''} \<Longrightarrow>
   map_of (data (coerce_step parse d)) k = map_of (data d) k"
  by (simp add: coerce_step_def get_update_col_other)

lemma index_collapse_senior:
  "index (senior_step fmt parse (collapse_step d)) = index d"
  by (simp add: senior_step_def index_update_col collapse_index)

lemma index_coerce_strip_rename: "index (coerce_step parse (strip_step (rename_step d))) = index d"
  by (simp add: coerce_step_def index_update_col strip_step_def rename_step_def)

section \<open>Duplicate identifiers\<close>

lemma churn_step_valid:
  assumes "aligned df"
  shows "length (valid_outcome fmt df) = length (index df)"
    and "index (churn_step fmt (coerce_step parse (strip_step (rename_step df)))) =
          select (valid_outcome fmt df) (index df)"
    and "k \<noteq> ''Churn'' \<Longrightarrow>
          map_of (data (churn_step fmt (coerce_step parse (strip_step (rename_step df))))) k =
          map_option (select_col (valid_outcome fmt df))
            (map_of (data (coerce_step parse (strip_step (rename_step df)))) k)"
proof -
  let ?d2 = "coerce_step parse (strip_step (rename_step df))"
  let ?m = "valid_outcome fmt df"
  have a2: "aligned ?d2"
    using assms by (simp add: aligned_coerce_step aligned_strip_step aligned_rename_step)
  have i2: "index ?d2 = index df" by (rule index_coerce_strip_rename)
  have ch: "map_of (data ?d2) ''Churn'' = map_option strip_column (map_of (data (rename_step df)) ''Churn'')"
    by (simp add: coerce_step_get_other strip_step_get)
  have "length ?m = length (index df)
    \<and> index (churn_step fmt ?d2) = select ?m (index df)
    \<and> (k \<noteq> ''Churn'' \<longrightarrow> map_of (data (churn_step fmt ?d2)) k = map_option (select_col ?m) (map_of (data ?d2) k))"
  proof (cases "map_of (data (rename_step df)) ''Churn''")
    case None
    then have m: "?m = replicate (length (index ?d2)) True" by (simp add: valid_outcome_def i2)
    from a2 have "loc_mask (replicate (length (index ?d2)) True) ?d2 = ?d2" by (rule loc_mask_all)
    with None ch have cs: "churn_step fmt ?d2 = loc_mask ?m ?d2" by (simp add: churn_step_def m)
    have "index (loc_mask ?m ?d2) = select ?m (index df)" by (simp add: loc_mask_def i2)
    moreover have "map_of (data (loc_mask ?m ?d2)) k = map_option (select_col ?m) (map_of (data ?d2) k)"
      by (rule get_loc_mask)
    moreover have "length ?m = length (index df)" by (simp add: m i2)
    ultimately show ?thesis unfolding cs by simp
  next
    case (Some c)
    with ch have c2: "map_of (data ?d2) ''Churn'' = Some (strip_column c)" by simp
    from a2 c2 have len: "col_len (strip_column c) = length (index ?d2)" by (rule aligned_col)
    define churn where "churn = map (\<lambda>s. OStr (title s)) (astype_str fmt (strip_column c))"
    have m: "map (isin [''Yes'', ''No'']) churn = ?m"
      using Some by (simp add: valid_outcome_def churn_def isin_def)
    have cs: "churn_step fmt ?d2 = loc_mask ?m (set_col ''Churn'' (ObjCol churn) ?d2)"
      using c2 by (simp add: churn_step_def Let_def churn_def [symmetric] m)
    have "index (loc_mask ?m (set_col ''Churn'' (ObjCol churn) ?d2)) = select ?m (index df)"
      by (simp add: loc_mask_def set_col_def i2)
    moreover have "k \<noteq> ''Churn'' \<longrightarrow> map_of (data (loc_mask ?m (set_col ''Churn'' (ObjCol churn) ?d2))) k
        = map_option (select_col ?m) (map_of (data ?d2) k)"
      by (simp add: get_loc_mask get_set_col)
    moreover have "length ?m = length (index df)"
      using Some len by (simp add: valid_outcome_def length_astype_str i2)
    ultimately show ?thesis unfolding cs by simp
  qed
  then show "length (valid_outcome fmt df) = length (index df)"
    and "index (churn_step fmt ?d2) = select ?m (index df)"
    and "k \<noteq> ''Churn'' \<Longrightarrow> map_of (data (churn_step fmt ?d2)) k = map_option (select_col ?m) (map_of (data ?d2) k)"
    by simp_all
qed

lemma before_dedup_valid:
  assumes "aligned df"
  shows "index (before_dedup fmt parse df) = select (valid_outcome fmt df) (index df)"
    and "map_of (data (rename_step df)) ''customerID'' = Some ids \<Longrightarrow>
      map_of (data (before_dedup fmt parse df)) ''customerID'' =
        Some (select_col (valid_outcome fmt df) (strip_column ids))"
proof -
  show "index (before_dedup fmt parse df) = select (valid_outcome fmt df) (index df)"
    using churn_step_valid(2) [OF assms] by (simp add: before_dedup_def index_collapse_senior)
  assume ids: "map_of (data (rename_step df)) ''customerID'' = Some ids"
  have k: "''customerID'' \<noteq> ''Churn''" "''customerID'' \<noteq> ''SeniorCitizen''"
    "''customerID'' \<notin> set service_columns" "''customerID'' \<notin> {''MonthlyCharges'', ''TotalCharges'', ''tenure''}"
    by (simp_all add: service_columns_def)
  have "map_of (data (coerce_step parse (strip_step (rename_step df)))) ''customerID'' = Some (strip_column ids)"
    using ids k(4) by (simp add: coerce_step_get_other strip_step_get)
  with churn_step_valid(3) [OF assms k(1), where fmt = fmt and parse = parse]
  have "map_of (data (churn_step fmt (coerce_step parse (strip_step (rename_step df))))) ''customerID''
      = Some (select_col (valid_outcome fmt df) (strip_column ids))"
    by simp
  with k(2,3) show "map_of (data (before_dedup fmt parse df)) ''customerID'' =
        Some (select_col (valid_outcome fmt df) (strip_column ids))"
    by (simp add: before_dedup_def senior_step_def get_update_col_other get_collapse_other)
qed

lemma dedup_keeps_first:
  assumes "aligned df"
    and "map_of (data (before_dedup fmt parse df)) ''customerID'' = Some key"
  shows "standardize_columns fmt parse df = iloc (first_rows key) (before_dedup fmt parse df)
    \<and> map_of (data (standardize_columns fmt parse df)) ''customerID'' = Some (take_col (first_rows key) key)
    \<and> distinct (cells (take_col (first_rows key) key))"
proof -
  let ?pre = "before_dedup fmt parse df"
  from assms have al: "aligned ?pre" by (simp add: aligned_before_dedup)
  from al assms(2) have len: "col_len key = length (index ?pre)" by (rule aligned_col)
  from assms(2) have std: "standardize_columns fmt parse df = drop_duplicates key ?pre"
    by (simp add: standardize_columns_def dedup_step_def)
  with al len have eq: "standardize_columns fmt parse df = iloc (first_rows key) ?pre"
    by (simp add: drop_duplicates_iloc)
  have sel: "select_col (map Not (duplicated key)) key = take_col (first_rows key) key"
    by (simp add: select_col_not_duplicated)
  from std assms(2) have "map_of (data (standardize_columns fmt parse df)) ''customerID''
      = Some (select_col (map Not (duplicated key)) key)"
    by (simp add: drop_duplicates_def get_loc_mask)
  with eq sel cells_not_duplicated [of key] show ?thesis by simp
qed

text \<open>
  C8, as amended. On an aligned frame with an identifier column, the frame before
  line 122 holds the rows with a valid outcome, its identifiers being the trimmed
  texts of the raw ones; the normalized frame is that frame restricted to the rows at
  which an identifier occurs for the first time, in the order of the input; and its
  identifier column holds no value twice.
\<close>

theorem first_valid_occurrence_kept:
  assumes "aligned df"
    and "map_of (data (rename_step df)) ''customerID'' = Some ids"
  shows "index (before_dedup fmt parse df) = select (valid_outcome fmt df) (index df)
    \<and> map_of (data (before_dedup fmt parse df)) ''customerID'' =
        Some (select_col (valid_outcome fmt df) (strip_column ids))
    \<and> standardize_columns fmt parse df =
        iloc (first_rows (select_col (valid_outcome fmt df) (strip_column ids)))
          (before_dedup fmt parse df)
    \<and> (\<exists>out_ids. map_of (data (standardize_columns fmt parse df)) ''customerID'' = Some out_ids
          \<and> distinct (cells out_ids))"
proof -
  let ?key = "select_col (valid_outcome fmt df) (strip_column ids)"
  from before_dedup_valid [OF assms(1), where fmt = fmt and parse = parse] assms(2)
  have i: "index (before_dedup fmt parse df) = select (valid_outcome fmt df) (index df)"
    and k: "map_of (data (before_dedup fmt parse df)) ''customerID'' = Some ?key"
    by simp_all
  from dedup_keeps_first [OF assms(1) k] i k show ?thesis by blast
qed

theorem first_valid_occurrence_kept_witness:
  "aligned dup_example
   \<and> map_of (data (rename_step dup_example)) ''customerID'' =
       Some (ObjCol [OStr ''A'', OStr ''B'', OStr ''A '', OStr ''B''])
   \<and> valid_outcome fmt_none dup_example = [True, False, True, True]
   \<and> select_col [True, False, True, True] (strip_column (ObjCol [OStr ''A'', OStr ''B'', OStr ''A '', OStr ''B''])) =
       ObjCol [OStr ''A'', OStr ''A'', OStr ''B'']
   \<and> first_rows (ObjCol [OStr ''A'', OStr ''A'', OStr ''B'']) = [0, 2]
   \<and> index (before_dedup fmt_none parse_none dup_example) = [0, 2, 3]
   \<and> standardize_columns fmt_none parse_none dup_example =
       \<lparr>index = [0, 3],
        data = [(''customerID'', ObjCol [OStr ''A'', OStr ''B'']),
                (''Churn'', ObjCol [OStr ''Yes'', OStr ''No''])]\<rparr>"
proof -
  have a: "aligned dup_example"
    by code_simp
  have k: "map_of (data (rename_step dup_example)) ''customerID'' =
      Some (ObjCol [OStr ''A'', OStr ''B'', OStr ''A '', OStr ''B''])"
    by code_simp
  have m: "valid_outcome fmt_none dup_example = [True, False, True, True]"
    by code_simp
  have s: "select_col [True, False, True, True] (strip_column (ObjCol [OStr ''A'', OStr ''B'', OStr ''A '', OStr ''B''])) =
       ObjCol [OStr ''A'', OStr ''A'', OStr ''B'']"
    by code_simp
  have r: "first_rows (ObjCol [OStr ''A'', OStr ''A'', OStr ''B'']) = [0, 2]"
    by code_simp
  have i: "select [True, False, True, True] (index dup_example) = [0, 2, 3]"
    by code_simp
  have v: "iloc [0, 2] (before_dedup fmt_none parse_none dup_example) =
      \<lparr>index = [0, 3],
       data = [(''customerID'', ObjCol [OStr ''A'', OStr ''B'']),
               (''Churn'', ObjCol [OStr ''Yes'', OStr ''No''])]\<rparr>"
    by code_simp
  from first_valid_occurrence_kept [OF a k, where fmt = fmt_none and parse = parse_none] a k m s r i v
  show ?thesis by simp
qed

text \<open>
  C8 as stated fails: of two rows that share the identifier \<open>A\<close>, the first with the
  outcome \<open>maybe\<close>, the second (row label 1) is kept, not the first.
\<close>

theorem first_occurrence_counterexample:
  "standardize_columns fmt_none parse_none first_invalid_example =
     \<lparr>index = [1],
      data = [(''customerID'', ObjCol [OStr ''A'']), (''Churn'', ObjCol [OStr ''Yes''])]\<rparr>"
  by code_simp

section \<open>The outcome filter\<close>

lemma churn_step_churn:
  assumes "map_of (data (rename_step df)) ''Churn'' = Some raw"
  shows "map_of (data (churn_step fmt (coerce_step parse (strip_step (rename_step df))))) ''Churn'' =
    Some (ObjCol (select (valid_outcome fmt df)
      (map (\<lambda>s. OStr (title s)) (astype_str fmt (strip_column raw)))))"
proof -
  let ?d2 = "coerce_step parse (strip_step (rename_step df))"
  define churn where "churn = map (\<lambda>s. OStr (title s)) (astype_str fmt (strip_column raw))"
  have c2: "map_of (data ?d2) ''Churn'' = Some (strip_column raw)"
    using assms by (simp add: coerce_step_get_other strip_step_get)
  have m: "map (isin [''Yes'', ''No'']) churn = valid_outcome fmt df"
    using assms by (simp add: valid_outcome_def churn_def isin_def)
  have "churn_step fmt ?d2 = loc_mask (valid_outcome fmt df) (set_col ''Churn'' (ObjCol churn) ?d2)"
    using c2 by (simp add: churn_step_def Let_def churn_def [symmetric] m)
  then show ?thesis
    by (simp add: get_loc_mask get_set_col churn_def)
qed

lemma before_dedup_churn:
  assumes "map_of (data (rename_step df)) ''Churn'' = Some raw"
  shows "map_of (data (before_dedup fmt parse df)) ''Churn'' =
    Some (ObjCol (select (valid_outcome fmt df)
      (map (\<lambda>s. OStr (title s)) (astype_str fmt (strip_column raw)))))"
proof -
  have "''Churn'' \<notin> set service_columns" by (simp add: service_columns_def)
  then show ?thesis
    using churn_step_churn [OF assms, where fmt = fmt and parse = parse]
    by (simp add: before_dedup_def senior_step_def get_update_col_other get_collapse_other)
qed

lemma dedup_step_mask_explicit:
  assumes "aligned d"
  shows "dedup_step d = loc_mask (dedup_mask d) d"
proof (cases "map_of (data d) ''customerID''")
  case None
  from assms have "loc_mask (replicate (length (index d)) True) d = d" by (rule loc_mask_all)
  with None show ?thesis by (simp add: dedup_step_def dedup_mask_def)
next
  case (Some key)
  then show ?thesis by (simp add: dedup_step_def dedup_mask_def drop_duplicates_def)
qed

text \<open>
  C4. The normalized frame has a column \<open>Churn\<close> exactly when a raw column is
  renamed to it, and then every cell of that column is the text \<open>Yes\<close> or the
  text \<open>No\<close>. On an aligned frame with the raw outcome column \<open>raw\<close>: the rows
  that pass line 91 are exactly the rows whose outcome, as text, trimmed and
  title-cased, is \<open>Yes\<close> or \<open>No\<close>; the frame before line 122 has the index of these
  rows and their title-cased outcomes as its column \<open>Churn\<close>; and the normalized
  frame is that frame under the mask of line 123, which removes duplicate identifiers
  only, and nothing without an identifier column. No step has an error branch.
\<close>

theorem churn_is_yes_or_no:
  "(''Churn'' \<in> set (columns (standardize_columns fmt parse df))
      \<longleftrightarrow> ''Churn'' \<in> set (map std_name (columns df)))
   \<and> (\<forall>c. map_of (data (standardize_columns fmt parse df)) ''Churn'' = Some c \<longrightarrow> yes_no c)
   \<and> (aligned df \<longrightarrow> map_of (data (rename_step df)) ''Churn'' = Some raw \<longrightarrow>
        valid_outcome fmt df =
          map (\<lambda>s. title s = ''Yes'' \<or> title s = ''No'') (astype_str fmt (strip_column raw))
        \<and> index (before_dedup fmt parse df) = select (valid_outcome fmt df) (index df)
        \<and> map_of (data (before_dedup fmt parse df)) ''Churn'' =
            Some (ObjCol (select (valid_outcome fmt df)
              (map (\<lambda>s. OStr (title s)) (astype_str fmt (strip_column raw)))))
        \<and> standardize_columns fmt parse df =
            loc_mask (dedup_mask (before_dedup fmt parse df)) (before_dedup fmt parse df)
        \<and> index (standardize_columns fmt parse df) =
            select (dedup_mask (before_dedup fmt parse df)) (select (valid_outcome fmt df) (index df))
        \<and> map_of (data (standardize_columns fmt parse df)) ''Churn'' =
            Some (ObjCol (select (dedup_mask (before_dedup fmt parse df))
              (select (valid_outcome fmt df)
                (map (\<lambda>s. OStr (title s)) (astype_str fmt (strip_column raw)))))))
   \<and> (map_of (data (before_dedup fmt parse df)) ''customerID'' = None \<longrightarrow>
        standardize_columns fmt parse df = before_dedup fmt parse df)"
proof (intro conjI impI allI)
  show "''Churn'' \<in> set (columns (standardize_columns fmt parse df))
      \<longleftrightarrow> ''Churn'' \<in> set (map std_name (columns df))"
    by (simp add: columns_standardize)
  show "yes_no c" if "map_of (data (standardize_columns fmt parse df)) ''Churn'' = Some c" for c
    using that by (rule standardize_yes_no)
  show "standardize_columns fmt parse df = before_dedup fmt parse df"
    if "map_of (data (before_dedup fmt parse df)) ''customerID'' = None"
    using that by (simp add: standardize_columns_def dedup_step_def)
next
  assume al: "aligned df" and raw: "map_of (data (rename_step df)) ''Churn'' = Some raw"
  let ?pre = "before_dedup fmt parse df"
  let ?titled = "map (\<lambda>s. OStr (title s)) (astype_str fmt (strip_column raw))"
  show "valid_outcome fmt df =
      map (\<lambda>s. title s = ''Yes'' \<or> title s = ''No'') (astype_str fmt (strip_column raw))"
    using raw by (simp add: valid_outcome_def)
  show i: "index ?pre = select (valid_outcome fmt df) (index df)"
    using al by (rule before_dedup_valid(1))
  show c: "map_of (data ?pre) ''Churn'' = Some (ObjCol (select (valid_outcome fmt df) ?titled))"
    using raw by (rule before_dedup_churn)
  from al have "aligned ?pre" by (rule aligned_before_dedup)
  then show out: "standardize_columns fmt parse df = loc_mask (dedup_mask ?pre) ?pre"
    by (simp add: standardize_columns_def dedup_step_mask_explicit)
  show "index (standardize_columns fmt parse df) =
      select (dedup_mask ?pre) (select (valid_outcome fmt df) (index df))"
    unfolding out by (simp add: loc_mask_def i)
  show "map_of (data (standardize_columns fmt parse df)) ''Churn'' =
      Some (ObjCol (select (dedup_mask ?pre) (select (valid_outcome fmt df) ?titled)))"
    unfolding out by (simp add: get_loc_mask c)
qed

theorem churn_is_yes_or_no_witness:
  "''Churn'' \<in> set (map std_name (columns churn_example))
   \<and> aligned churn_example
   \<and> map_of (data (rename_step churn_example)) ''Churn'' =
       Some (ObjCol [OStr ''yes'', OStr ''NO'', OStr ''Unknown'', ONaN])
   \<and> valid_outcome fmt_none churn_example = [True, True, False, False]
   \<and> map_of (data (before_dedup fmt_none parse_none churn_example)) ''customerID'' = None
   \<and> index (standardize_columns fmt_none parse_none churn_example) = [0, 1]
   \<and> map_of (data (standardize_columns fmt_none parse_none churn_example)) ''Churn'' =
       Some (ObjCol [OStr ''Yes'', OStr ''No''])
   \<and> yes_no (ObjCol [OStr ''Yes'', OStr ''No''])"
proof -
  let ?out = "standardize_columns fmt_none parse_none churn_example"
  let ?pre = "before_dedup fmt_none parse_none churn_example"
  have l: "''Churn'' \<in> set (map std_name (columns churn_example))"
    by code_simp
  have a: "aligned churn_example"
    by code_simp
  have r: "map_of (data (rename_step churn_example)) ''Churn'' =
      Some (ObjCol [OStr ''yes'', OStr ''NO'', OStr ''Unknown'', ONaN])"
    by code_simp
  have v: "map (\<lambda>s. title s = ''Yes'' \<or> title s = ''No'')
      (astype_str fmt_none (strip_column (ObjCol [OStr ''yes'', OStr ''NO'', OStr ''Unknown'', ONaN]))) =
      [True, True, False, False]"
    by code_simp
  have k: "map_of (data ?pre) ''customerID'' = None"
    by code_simp
  have i: "select [True, True, False, False] (index churn_example) = [0, 1]"
    by code_simp
  have t: "select [True, True, False, False]
      (map (\<lambda>s. OStr (title s))
        (astype_str fmt_none (strip_column (ObjCol [OStr ''yes'', OStr ''NO'', OStr ''Unknown'', ONaN])))) =
      [OStr ''Yes'', OStr ''No'']"
    by code_simp
  note inst = churn_is_yes_or_no [of fmt_none parse_none churn_example
      "ObjCol [OStr ''yes'', OStr ''NO'', OStr ''Unknown'', ONaN]"]
  from inst a r v have m: "valid_outcome fmt_none churn_example = [True, True, False, False]"
    by simp
  from inst k have same: "?out = ?pre" by blast
  from inst a r have "index ?pre = select (valid_outcome fmt_none churn_example) (index churn_example)"
    by blast
  with m i same have x: "index ?out = [0, 1]" by simp
  from inst a r have "map_of (data ?pre) ''Churn'' =
      Some (ObjCol (select (valid_outcome fmt_none churn_example)
        (map (\<lambda>s. OStr (title s))
          (astype_str fmt_none (strip_column (ObjCol [OStr ''yes'', OStr ''NO'', OStr ''Unknown'', ONaN]))))))"
    by blast
  with m t same have c: "map_of (data ?out) ''Churn'' = Some (ObjCol [OStr ''Yes'', OStr ''No''])"
    by simp
  from inst c have "yes_no (ObjCol [OStr ''Yes'', OStr ''No''])" by blast
  with l a r m k x c show ?thesis by simp
qed

section \<open>The reported drop count\<close>

lemma duplicated_distinct:
  "distinct (cells key) \<Longrightarrow> map Not (duplicated key) = replicate (col_len key) True"
  by (cases key) (simp_all add: distinct_map duplicated_from_distinct)

lemma drop_duplicates_distinct:
  "aligned df \<Longrightarrow> map_of (data df) k = Some key \<Longrightarrow> distinct (cells key) \<Longrightarrow>
   drop_duplicates key df = df"
  by (simp add: drop_duplicates_def duplicated_distinct aligned_col loc_mask_all)

lemma standardize_key_distinct:
  assumes "map_of (data (standardize_columns fmt parse df)) ''customerID'' = Some key"
  shows "distinct (cells key)"
proof -
  from assms obtain key0 where "map_of (data (before_dedup fmt parse df)) ''customerID'' = Some key0"
    by (cases "map_of (data (before_dedup fmt parse df)) ''customerID''")
       (auto simp: standardize_columns_def dedup_step_def)
  with assms have "key = select_col (map Not (duplicated key0)) key0"
    by (simp add: standardize_columns_def dedup_step_def drop_duplicates_def get_loc_mask)
  then show ?thesis by (simp add: cells_not_duplicated)
qed

text \<open>
  C1. The drop count that \<open>main\<close> reports is measured around a second
  \<open>drop_duplicates\<close>, on a frame that \<open>standardize_columns\<close> has already
  freed of duplicates: it is 0 in every run. On two rows that share an identifier
  one row is dropped and the count reported is 0, not 1.
\<close>

theorem reported_drop_count_is_zero:
  assumes "aligned df" and "main fmt parse describe df = Inr r"
  shows "dropped_dupes r = 0"
proof (cases "map_of (data (standardize_columns fmt parse df)) ''customerID''")
  case None
  with assms(2) show ?thesis
    by (auto simp: main_def Let_def split: sum.splits)
next
  case (Some key)
  have "drop_duplicates key (standardize_columns fmt parse df) = standardize_columns fmt parse df"
    using assms(1) Some by (simp add: drop_duplicates_distinct aligned_standardize standardize_key_distinct)
  with Some assms(2) show ?thesis
    by (auto simp: main_def Let_def split: sum.splits)
qed

theorem reported_drop_count_is_zero_witness:
  "aligned two_rows
   \<and> main fmt_none parse_none (\<lambda>_. ()) two_rows = Inr two_rows_run
   \<and> dropped_dupes two_rows_run = 0
   \<and> int (len two_rows) - int (len (clean two_rows_run)) = 1"
proof -
  have a: "aligned two_rows"
    by code_simp
  have m: "main fmt_none parse_none (\<lambda>_. ()) two_rows = Inr two_rows_run"
    by code_simp
  have l: "int (len two_rows) - int (len (clean two_rows_run)) = 1"
    by code_simp
  from reported_drop_count_is_zero [OF a m] a m l show ?thesis by simp
qed

section \<open>SeniorCitizen\<close>

lemma gt_mean_bool: "gt (mean_bool bs) (1 / 2) \<longleftrightarrow> length bs < 2 * length (filter id bs)"
proof (cases "bs = []")
  case True
  then show ?thesis by (simp add: gt_def mean_bool_def)
next
  case False
  then have "0 < real (length bs)" by simp
  then have "1 / 2 < real (length (filter id bs)) / real (length bs)
      \<longleftrightarrow> real (length bs) < 2 * real (length (filter id bs))"
    by (simp add: field_simps)
  also have "\<dots> \<longleftrightarrow> length bs < 2 * length (filter id bs)"
    by (metis of_nat_less_iff of_nat_mult of_nat_numeral)
  finally show ?thesis using False by (simp add: gt_def mean_bool_def)
qed

lemma senior_column_count:
  "senior_column fmt parse c =
     ObjCol (if col_len c < 2 * numeric_count parse c
             then map (\<lambda>v. OStr (if v = Num 1 then ''Yes'' else ''No'')) (to_numeric parse c)
             else map (\<lambda>s. OStr (title s)) (astype_str fmt c))"
proof -
  have "length (filter id (map (\<lambda>v. v \<noteq> NaN) (to_numeric parse c))) = numeric_count parse c"
    by (simp add: numeric_count_def filter_map o_def)
  then show ?thesis
    by (simp add: senior_column_def Let_def gt_mean_bool length_to_numeric)
qed

text \<open>
  C7. \<open>SeniorCitizen\<close> is rewritten by \<open>senior_column\<close>. When strictly more than
  half of the cells read as numbers, a cell that reads as 1 becomes \<open>Yes\<close> and every
  other cell \<open>No\<close>; otherwise every cell is its text, title-cased. The column
  0, 1, 1, 0 becomes No, Yes, Yes, No; a text column of which one cell in three, or
  one in two, reads as a number is title-cased.
\<close>

theorem senior_citizen_normalized:
  "senior_column fmt parse c =
     ObjCol (if col_len c < 2 * numeric_count parse c
             then map (\<lambda>v. OStr (if v = Num 1 then ''Yes'' else ''No'')) (to_numeric parse c)
             else map (\<lambda>s. OStr (title s)) (astype_str fmt c))
   \<and> map_of (data (senior_step fmt parse df)) ''SeniorCitizen'' =
       map_option (senior_column fmt parse) (map_of (data df) ''SeniorCitizen'')
   \<and> standardize_columns fmt parse senior_example =
       \<lparr>index = [0, 1, 2, 3],
        data = [(''SeniorCitizen'', ObjCol [OStr ''No'', OStr ''Yes'', OStr ''Yes'', OStr ''No''])]\<rparr>
   \<and> senior_column fmt parse_one (ObjCol [OStr ''yes'', OStr ''NO'', OStr ''1'']) =
       ObjCol [OStr ''Yes'', OStr ''No'', OStr ''1'']
   \<and> senior_column fmt parse_one (ObjCol [OStr ''1'', OStr ''x'']) = ObjCol [OStr ''1'', OStr ''X'']"
proof (intro conjI)
  show "senior_column fmt parse_one (ObjCol [OStr ''yes'', OStr ''NO'', OStr ''1'']) =
       ObjCol [OStr ''Yes'', OStr ''No'', OStr ''1'']"
    by code_simp
  show "senior_column fmt parse_one (ObjCol [OStr ''1'', OStr ''x'']) = ObjCol [OStr ''1'', OStr ''X'']"
    by code_simp
  show "standardize_columns fmt parse senior_example =
       \<lparr>index = [0, 1, 2, 3],
        data = [(''SeniorCitizen'', ObjCol [OStr ''No'', OStr ''Yes'', OStr ''Yes'', OStr ''No''])]\<rparr>"
    by code_simp
qed (simp_all add: senior_column_count senior_step_def get_update_col_same)

section \<open>The derived feature\<close>

lemma is_numeric_select_col: "is_numeric (select_col m c) = is_numeric c"
  by (cases c) simp_all

lemma churn_step_numeric:
  assumes "k \<noteq> ''Churn''" and "\<And>c. map_of (data df) k = Some c \<Longrightarrow> is_numeric c"
    and "map_of (data (churn_step fmt df)) k = Some c"
  shows "is_numeric c"
proof (cases "map_of (data df) ''Churn''")
  case None
  with assms show ?thesis by (simp add: churn_step_def)
next
  case (Some ch)
  with assms(1,3) obtain c0 m where "map_of (data df) k = Some c0" "c = select_col m c0"
    by (auto simp: churn_step_def Let_def get_loc_mask get_set_col)
  with assms(2) show ?thesis by (simp add: is_numeric_select_col)
qed

lemma coerce_step_numeric:
  assumes "k \<in> {''MonthlyCharges'', ''TotalCharges'', ''tenure''}"
    and "map_of (data (coerce_step parse df)) k = Some c"
  shows "is_numeric c"
  using assms by (auto simp: coerce_step_def get_update_col_same get_update_col_other)

lemma before_dedup_numeric:
  assumes "k \<in> {''MonthlyCharges'', ''TotalCharges'', ''tenure''}"
    and "map_of (data (before_dedup fmt parse df)) k = Some c"
  shows "is_numeric c"
proof -
  from assms(1) have k: "k \<noteq> ''SeniorCitizen''" "k \<notin> set service_columns" "k \<noteq> ''Churn''"
    by (auto simp: service_columns_def)
  with assms(2) have pre: "map_of (data (churn_step fmt (coerce_step parse (strip_step (rename_step df))))) k = Some c"
    by (simp add: before_dedup_def senior_step_def get_update_col_other get_collapse_other)
  show ?thesis
    by (rule churn_step_numeric [OF k(3) _ pre]) (rule coerce_step_numeric [OF assms(1)])
qed

lemma standardize_numeric:
  assumes "k \<in> {''MonthlyCharges'', ''TotalCharges'', ''tenure''}"
    and "map_of (data (standardize_columns fmt parse df)) k = Some c"
  shows "is_numeric c"
proof (cases "map_of (data (before_dedup fmt parse df)) ''customerID''")
  case None
  with assms show ?thesis
    by (simp add: standardize_columns_def dedup_step_def before_dedup_numeric)
next
  case (Some key)
  with assms(2) obtain c0 where "map_of (data (before_dedup fmt parse df)) k = Some c0"
    and "c = select_col (map Not (duplicated key)) c0"
    by (auto simp: standardize_columns_def dedup_step_def drop_duplicates_def get_loc_mask)
  with assms(1) show ?thesis by (simp add: before_dedup_numeric is_numeric_select_col)
qed

lemma float_div_not_NaN: "float_div c t \<noteq> NaN"
  by (simp add: float_div_def)

lemma float_div_finite: "is_finite (float_div c t) \<longleftrightarrow> \<bar>c / t\<bar> < float64_overflow"
  by (auto simp: float_div_def)

lemma average_charge_present:
  "average_charge c t \<noteq> NaN \<longleftrightarrow> positive t \<and> c \<noteq> NaN \<and> \<not> (is_inf c \<and> is_inf t)"
  by (cases c; cases t) (simp_all add: average_charge_def float_div_not_NaN)

lemma average_charge_value:
  "0 < t \<Longrightarrow> \<bar>c / t\<bar> < float64_overflow \<Longrightarrow> average_charge (Num c) (Num t) = Num (c / t)"
  by (simp add: average_charge_def float_div_def)

lemma average_charge_finite:
  "is_finite (average_charge c t) \<longleftrightarrow>
     (\<exists>c'. c = Num c' \<and> (t = PInf \<or> (\<exists>t'. t = Num t' \<and> 0 < t' \<and> \<bar>c' / t'\<bar> < float64_overflow)))"
  by (cases c; cases t) (simp_all add: average_charge_def float_div_finite)

lemma float64_overflow_bounds: "2 ^ 1023 \<le> float64_overflow" "float64_overflow \<le> 2 ^ 1024"
proof -
  have "(2::real) ^ 970 \<le> 2 ^ 1023" by (rule power_increasing) simp_all
  moreover have "(2::real) ^ 1024 = 2 * 2 ^ 1023" by (simp add: power_Suc [symmetric] del: power_Suc)
  ultimately show "2 ^ 1023 \<le> float64_overflow" by (simp add: float64_overflow_def)
  show "float64_overflow \<le> 2 ^ 1024" by (simp add: float64_overflow_def)
qed

lemma small_in_range: "\<bar>q\<bar> < 2 ^ 64 \<Longrightarrow> \<bar>q\<bar> < float64_overflow"
proof -
  assume "\<bar>q\<bar> < 2 ^ 64"
  moreover have "(2::real) ^ 64 \<le> 2 ^ 1023" by (rule power_increasing) simp_all
  ultimately show ?thesis using float64_overflow_bounds(1) by linarith
qed

lemma float_div_50_2: "float_div 50 2 = Num 25"
proof -
  have "\<bar>50 / 2 :: real\<bar> < float64_overflow" by (rule small_in_range) simp
  then show ?thesis by (simp add: float_div_def)
qed

lemma float_div_huge: "float_div huge (1 / 2) = PInf"
proof -
  have "huge / (1 / 2) = 2 ^ 1024" by (simp add: huge_def power_Suc [symmetric] del: power_Suc)
  moreover have "0 < huge" by (simp add: huge_def)
  ultimately show ?thesis using float64_overflow_bounds(2) by (simp add: float_div_def)
qed

lemma columns_set_col: "set (columns (set_col k c df)) = insert k (set (columns df))"
  by (auto simp: columns_def set_col_def update_keys)

text \<open>
  C5, as amended. On a frame whose columns \<open>TotalCharges\<close> and \<open>tenure\<close> are numeric
  and equally long, \<open>create_features\<close> returns the frame with the column
  \<open>AverageMonthlyCharge\<close> set and nothing else changed. A row has a value there (not
  NaN) exactly when its tenure is above 0 and its charges are not missing and the two
  are not both infinite. For finite charges and a finite tenure above 0 the value is
  the quotient when that is within the float64 range; the value is finite exactly
  when the charges are finite and the tenure is infinite, or finite and above 0 with
  the quotient within the range (beyond it the value is an infinity). When one of the
  two columns is absent the frame is returned as it is. A tenure of 0 with charges of
  50 gives a missing value. After \<open>standardize_columns\<close> the two columns are numeric.
\<close>

theorem average_monthly_charge:
  "(map_of (data df) ''TotalCharges'' = Some (NumCol cs) \<longrightarrow>
    map_of (data df) ''tenure'' = Some (NumCol ts) \<longrightarrow> length cs = length ts \<longrightarrow>
      (\<exists>out amc. create_features df = Inr out
         \<and> map_of (data out) ''AverageMonthlyCharge'' = Some (NumCol amc)
         \<and> index out = index df
         \<and> (\<forall>k. k \<noteq> ''AverageMonthlyCharge'' \<longrightarrow> map_of (data out) k = map_of (data df) k)
         \<and> set (columns out) = insert ''AverageMonthlyCharge'' (set (columns df))
         \<and> length amc = length ts
         \<and> (\<forall>i<length ts.
              (amc ! i \<noteq> NaN \<longleftrightarrow>
                 positive (ts ! i) \<and> cs ! i \<noteq> NaN \<and> \<not> (is_inf (cs ! i) \<and> is_inf (ts ! i)))
              \<and> (\<forall>c t. cs ! i = Num c \<longrightarrow> ts ! i = Num t \<longrightarrow> 0 < t \<longrightarrow>
                    \<bar>c / t\<bar> < float64_overflow \<longrightarrow> amc ! i = Num (c / t))
              \<and> (is_finite (amc ! i) \<longleftrightarrow>
                    (\<exists>c. cs ! i = Num c \<and>
                      (ts ! i = PInf \<or>
                       (\<exists>t. ts ! i = Num t \<and> 0 < t \<and> \<bar>c / t\<bar> < float64_overflow)))))))
   \<and> (map_of (data df) ''TotalCharges'' = None \<or> map_of (data df) ''tenure'' = None \<longrightarrow>
        create_features df = Inr df)
   \<and> average_charge (Num 50) (Num 0) = NaN
   \<and> (\<forall>k c. k \<in> {''TotalCharges'', ''tenure''} \<longrightarrow>
        map_of (data (standardize_columns fmt parse df)) k = Some c \<longrightarrow> is_numeric c)"
proof (intro conjI impI)
  assume cs: "map_of (data df) ''TotalCharges'' = Some (NumCol cs)"
    and ts: "map_of (data df) ''tenure'' = Some (NumCol ts)" and len: "length cs = length ts"
  let ?amc = "map2 average_charge cs ts"
  let ?out = "set_col ''AverageMonthlyCharge'' (NumCol ?amc) df"
  from cs ts have "create_features df = Inr ?out"
    by (simp add: create_features_def)
  moreover have "map_of (data ?out) ''AverageMonthlyCharge'' = Some (NumCol ?amc)"
    by (simp add: get_set_col)
  moreover have "index ?out = index df"
    by (simp add: set_col_def)
  moreover have "\<forall>k. k \<noteq> ''AverageMonthlyCharge'' \<longrightarrow> map_of (data ?out) k = map_of (data df) k"
    by (simp add: get_set_col)
  moreover have "set (columns ?out) = insert ''AverageMonthlyCharge'' (set (columns df))"
    by (rule columns_set_col)
  moreover from len have "length ?amc = length ts" by simp
  moreover have "(?amc ! i \<noteq> NaN \<longleftrightarrow>
                 positive (ts ! i) \<and> cs ! i \<noteq> NaN \<and> \<not> (is_inf (cs ! i) \<and> is_inf (ts ! i)))
              \<and> (\<forall>c t. cs ! i = Num c \<longrightarrow> ts ! i = Num t \<longrightarrow> 0 < t \<longrightarrow>
                    \<bar>c / t\<bar> < float64_overflow \<longrightarrow> ?amc ! i = Num (c / t))
              \<and> (is_finite (?amc ! i) \<longleftrightarrow>
                    (\<exists>c. cs ! i = Num c \<and>
                      (ts ! i = PInf \<or>
                       (\<exists>t. ts ! i = Num t \<and> 0 < t \<and> \<bar>c / t\<bar> < float64_overflow))))"
    if "i < length ts" for i
  proof -
    from that len have nth: "?amc ! i = average_charge (cs ! i) (ts ! i)" by simp
    show ?thesis
      unfolding nth
      using average_charge_present [of "cs ! i" "ts ! i"] average_charge_finite [of "cs ! i" "ts ! i"]
      by (simp add: average_charge_value)
  qed
  ultimately show "\<exists>out amc. create_features df = Inr out
         \<and> map_of (data out) ''AverageMonthlyCharge'' = Some (NumCol amc)
         \<and> index out = index df
         \<and> (\<forall>k. k \<noteq> ''AverageMonthlyCharge'' \<longrightarrow> map_of (data out) k = map_of (data df) k)
         \<and> set (columns out) = insert ''AverageMonthlyCharge'' (set (columns df))
         \<and> length amc = length ts
         \<and> (\<forall>i<length ts.
              (amc ! i \<noteq> NaN \<longleftrightarrow>
                 positive (ts ! i) \<and> cs ! i \<noteq> NaN \<and> \<not> (is_inf (cs ! i) \<and> is_inf (ts ! i)))
              \<and> (\<forall>c t. cs ! i = Num c \<longrightarrow> ts ! i = Num t \<longrightarrow> 0 < t \<longrightarrow>
                    \<bar>c / t\<bar> < float64_overflow \<longrightarrow> amc ! i = Num (c / t))
              \<and> (is_finite (amc ! i) \<longleftrightarrow>
                    (\<exists>c. cs ! i = Num c \<and>
                      (ts ! i = PInf \<or>
                       (\<exists>t. ts ! i = Num t \<and> 0 < t \<and> \<bar>c / t\<bar> < float64_overflow)))))"
    by (intro exI [of _ ?out] exI [of _ ?amc]) blast
next
  assume "map_of (data df) ''TotalCharges'' = None \<or> map_of (data df) ''tenure'' = None"
  then show "create_features df = Inr df"
    by (auto simp: create_features_def split: option.splits)
next
  show "average_charge (Num 50) (Num 0) = NaN" by (simp add: average_charge_def)
next
  show "\<forall>k c. k \<in> {''TotalCharges'', ''tenure''} \<longrightarrow>
        map_of (data (standardize_columns fmt parse df)) k = Some c \<longrightarrow> is_numeric c"
    using standardize_numeric [of _ fmt parse df] by blast
qed

theorem average_monthly_charge_witness:
  "map_of (data charges_example) ''TotalCharges'' = Some (NumCol [Num 50, Num 50, NaN, Num 30, PInf])
   \<and> map_of (data charges_example) ''tenure'' = Some (NumCol [Num 0, Num 2, Num 1, NaN, Num 1])
   \<and> create_features charges_example =
       Inr (set_col ''AverageMonthlyCharge'' (NumCol [NaN, Num 25, NaN, NaN, PInf]) charges_example)
   \<and> (\<exists>out amc. create_features charges_example = Inr out
         \<and> map_of (data out) ''AverageMonthlyCharge'' = Some (NumCol amc)
         \<and> length amc = 5 \<and> amc ! 0 = NaN \<and> amc ! 1 = Num 25 \<and> \<not> is_finite (amc ! 4))
   \<and> create_features \<lparr>index = [0], data = [(''tenure'', NumCol [Num 1])]\<rparr> =
       Inr \<lparr>index = [0], data = [(''tenure'', NumCol [Num 1])]\<rparr>
   \<and> is_numeric (NumCol [Num 0, Num 2, Num 1, NaN, Num 1])"
proof -
  let ?cs = "[Num 50, Num 50, NaN, Num 30, PInf]"
  let ?ts = "[Num 0, Num 2, Num 1, NaN, Num 1]"
  have c: "map_of (data charges_example) ''TotalCharges'' = Some (NumCol ?cs)"
    by code_simp
  have t: "map_of (data charges_example) ''tenure'' = Some (NumCol ?ts)"
    by code_simp
  have s: "map_of (data (standardize_columns fmt_none parse_none charges_example)) ''tenure'' =
      Some (NumCol ?ts)"
    by code_simp
  have f: "create_features charges_example =
       Inr (set_col ''AverageMonthlyCharge'' (NumCol [NaN, Num 25, NaN, NaN, PInf]) charges_example)"
    by (simp add: create_features_def charges_example_def average_charge_def float_div_50_2)
  have n: "map_of (data \<lparr>index = [0], data = [(''tenure'', NumCol [Num 1])]\<rparr>) ''TotalCharges'' = None"
    by simp
  have r: "\<bar>50 / (2::real)\<bar> < float64_overflow"
    by (rule small_in_range) simp
  note inst = average_monthly_charge [of charges_example ?cs ?ts fmt_none parse_none]
  from inst c t obtain out amc where o: "create_features charges_example = Inr out"
    and a: "map_of (data out) ''AverageMonthlyCharge'' = Some (NumCol amc)"
    and l: "length amc = length ?ts"
    and p: "\<And>i. i < length ?ts \<Longrightarrow>
        (amc ! i \<noteq> NaN \<longleftrightarrow> positive (?ts ! i) \<and> ?cs ! i \<noteq> NaN \<and> \<not> (is_inf (?cs ! i) \<and> is_inf (?ts ! i)))
        \<and> (\<forall>c t. ?cs ! i = Num c \<longrightarrow> ?ts ! i = Num t \<longrightarrow> 0 < t \<longrightarrow>
              \<bar>c / t\<bar> < float64_overflow \<longrightarrow> amc ! i = Num (c / t))
        \<and> (is_finite (amc ! i) \<longleftrightarrow>
              (\<exists>c. ?cs ! i = Num c \<and>
                (?ts ! i = PInf \<or> (\<exists>t. ?ts ! i = Num t \<and> 0 < t \<and> \<bar>c / t\<bar> < float64_overflow))))"
    by (auto simp del: One_nat_def)
  from p [of 0] have a0: "amc ! 0 = NaN" by simp
  from p [of 1] r have a1: "amc ! 1 = Num 25" by simp
  from p [of 4] have a4: "\<not> is_finite (amc ! 4)" by simp
  from o a l a0 a1 a4 have e: "\<exists>out amc. create_features charges_example = Inr out
         \<and> map_of (data out) ''AverageMonthlyCharge'' = Some (NumCol amc)
         \<and> length amc = 5 \<and> amc ! 0 = NaN \<and> amc ! 1 = Num 25 \<and> \<not> is_finite (amc ! 4)"
    by auto
  from inst s have "is_numeric (NumCol ?ts)" by blast
  moreover from average_monthly_charge [of "\<lparr>index = [0], data = [(''tenure'', NumCol [Num 1])]\<rparr>"] n
  have "create_features \<lparr>index = [0], data = [(''tenure'', NumCol [Num 1])]\<rparr> =
       Inr \<lparr>index = [0], data = [(''tenure'', NumCol [Num 1])]\<rparr>" by blast
  ultimately show ?thesis using c t f e by simp
qed

text \<open>
  C5 as stated fails: charges of \<open>2 ^ 1023\<close> over a tenure of a half, both finite and
  the tenure above 0, give the quotient \<open>2 ^ 1024\<close>, beyond the float64 range: the
  value is an infinity, present and not finite.
\<close>

theorem finite_charge_counterexample:
  "create_features overflow_example =
     Inr \<lparr>index = [0],
          data = [(''TotalCharges'', NumCol [Num huge]), (''tenure'', NumCol [Num (1 / 2)]),
                  (''AverageMonthlyCharge'', NumCol [PInf])]\<rparr>"
  by (simp add: create_features_def overflow_example_def set_col_def average_charge_def float_div_huge)

section \<open>The overall rate\<close>

lemma yes_no_counts:
  assumes "yes_no c"
  shows "non_missing c = col_len c" and "col_len c = count_text ''Yes'' c + count_text ''No'' c"
proof -
  from assms obtain xs where c: "c = ObjCol xs" and yn: "\<forall>x \<in> set xs. x = OStr ''Yes'' \<or> x = OStr ''No''"
    by (cases c) (auto simp: list_all_iff)
  from yn have "filter (\<lambda>x. x \<noteq> ONaN \<and> x \<noteq> ONone) xs = xs"
    by (auto intro!: filter_True)
  with c show "non_missing c = col_len c" by simp
  from yn have "length xs = length (filter (\<lambda>x. x = OStr ''Yes'') xs) + length (filter (\<lambda>x. x = OStr ''No'') xs)"
    by (induction xs) auto
  with c show "col_len c = count_text ''Yes'' c + count_text ''No'' c"
    by (simp add: count_text_def filter_map o_def)
qed

lemma yes_rate_yes_no:
  assumes "yes_no c"
  shows "yes_rate c =
    (if non_missing c = 0 then None else Some (real (count_text ''Yes'' c) / real (non_missing c) * 100))"
proof -
  from assms obtain xs where c: "c = ObjCol xs" by (cases c) auto
  from yes_no_counts(1) [OF assms] c have "non_missing c = length xs" by simp
  with c show ?thesis
    by (simp add: yes_rate_def mean_bool_def count_text_def)
qed

lemma create_features_get:
  "create_features d = Inr d' \<Longrightarrow> k \<noteq> ''AverageMonthlyCharge'' \<Longrightarrow> map_of (data d') k = map_of (data d) k"
  by (auto simp: create_features_def get_set_col split: option.splits sum.splits)

lemma eda_overall: "eda_and_plots describe d = Inr st \<Longrightarrow> overall_churn_rate_pct st = churn_rate d"
  by (auto simp: eda_and_plots_def split: sum.splits)

lemma main_clean_churn:
  assumes "main fmt parse describe df = Inr r"
  shows "overall_churn_rate_pct (run_stats r) = churn_rate (clean r)"
    and "map_of (data (clean r)) ''Churn'' = Some c \<Longrightarrow> yes_no c"
proof -
  let ?s = "standardize_columns fmt parse df"
  define d where "d = (case map_of (data ?s) ''customerID'' of None \<Rightarrow> ?s | Some key \<Rightarrow> drop_duplicates key ?s)"
  from assms obtain st where cf: "create_features d = Inr (clean r)"
    and eda: "eda_and_plots describe (clean r) = Inr st" and st: "run_stats r = st"
    by (auto simp: main_def Let_def d_def split: option.splits sum.splits)
  from eda st show "overall_churn_rate_pct (run_stats r) = churn_rate (clean r)"
    by (simp add: eda_overall)
  assume "map_of (data (clean r)) ''Churn'' = Some c"
  with cf have dc: "map_of (data d) ''Churn'' = Some c" by (simp add: create_features_get)
  show "yes_no c"
  proof (cases "map_of (data ?s) ''customerID''")
    case None
    with dc show ?thesis by (simp add: d_def standardize_yes_no)
  next
    case (Some key)
    with dc obtain c0 where "map_of (data ?s) ''Churn'' = Some c0" "c = select_col (map Not (duplicated key)) c0"
      by (auto simp: d_def drop_duplicates_def get_loc_mask)
    then show ?thesis by (simp add: standardize_yes_no yes_no_select)
  qed
qed

text \<open>
  C6. In every run that ends, the overall rate that \<open>main\<close> reports is the
  rate of the specification on the cleaned frame: 100 times the count of \<open>Yes\<close>
  over the count of non-missing outcomes, which is the count of \<open>Yes\<close> plus the
  count of \<open>No\<close>; it is unavailable (NaN) when the frame has no column
  \<open>Churn\<close>, for which \<open>churn_rate\<close> returns NaN on every frame.
\<close>

theorem overall_rate:
  assumes "main fmt parse describe df = Inr r"
  shows "overall_churn_rate_pct (run_stats r) = spec_rate (clean r)
    \<and> (map_of (data (clean r)) ''Churn'' = None \<longrightarrow> overall_churn_rate_pct (run_stats r) = None)
    \<and> (\<forall>c. map_of (data (clean r)) ''Churn'' = Some c \<longrightarrow>
          non_missing c = count_text ''Yes'' c + count_text ''No'' c)
    \<and> (\<forall>d. map_of (data d) ''Churn'' = None \<longrightarrow> churn_rate d = None)"
proof (intro conjI allI impI)
  fix d :: dataframe
  assume "map_of (data d) ''Churn'' = None"
  then show "churn_rate d = None" by (simp add: churn_rate_def)
next
  show "overall_churn_rate_pct (run_stats r) = spec_rate (clean r)"
  proof (cases "map_of (data (clean r)) ''Churn''")
    case None
    with main_clean_churn(1) [OF assms] show ?thesis by (simp add: churn_rate_def spec_rate_def)
  next
    case (Some c)
    with main_clean_churn(2) [OF assms] have "yes_no c" by simp
    with Some main_clean_churn(1) [OF assms] show ?thesis
      by (simp add: churn_rate_def spec_rate_def yes_rate_yes_no)
  qed
next
  assume "map_of (data (clean r)) ''Churn'' = None"
  with main_clean_churn(1) [OF assms] show "overall_churn_rate_pct (run_stats r) = None"
    by (simp add: churn_rate_def)
next
  fix c assume "map_of (data (clean r)) ''Churn'' = Some c"
  with main_clean_churn(2) [OF assms] have "yes_no c" by simp
  from yes_no_counts [OF this] show "non_missing c = count_text ''Yes'' c + count_text ''No'' c"
    by simp
qed

theorem overall_rate_witness:
  "main fmt_none parse_none (\<lambda>_. ()) rate_example = Inr rate_example_run
   \<and> overall_churn_rate_pct (run_stats rate_example_run) = Some (200 / 3)
   \<and> spec_rate (clean rate_example_run) = Some (200 / 3)
   \<and> count_text ''Yes'' (ObjCol [OStr ''Yes'', OStr ''No'', OStr ''Yes'']) = 2
   \<and> count_text ''No'' (ObjCol [OStr ''Yes'', OStr ''No'', OStr ''Yes'']) = 1"
proof -
  have m: "main fmt_none parse_none (\<lambda>_. ()) rate_example = Inr rate_example_run"
    by code_simp
  have o: "overall_churn_rate_pct (run_stats rate_example_run) = Some (200 / 3)"
    by (simp add: rate_example_run_def)
  have y: "count_text ''Yes'' (ObjCol [OStr ''Yes'', OStr ''No'', OStr ''Yes'']) = 2"
    by code_simp
  have n: "count_text ''No'' (ObjCol [OStr ''Yes'', OStr ''No'', OStr ''Yes'']) = 1"
    by code_simp
  from overall_rate [OF m] o y n m show ?thesis by simp
qed

section \<open>Aggregation without the outcome column\<close>

lemma rate_loop_with_churn:
  "map_of (data df) ''Churn'' = Some ch \<Longrightarrow> \<exists>out'. rate_loop df cats out = Inr out'"
  by (induction cats arbitrary: out) (auto split: option.splits)

lemma rate_loop_without_churn:
  "map_of (data df) ''Churn'' = None \<Longrightarrow>
   rate_loop df cats out =
     (if \<exists>k \<in> set cats. map_of (data df) k \<noteq> None
      then Inl (KeyError ''Column not found: Churn'') else Inr out)"
  by (induction cats arbitrary: out) (auto split: option.splits)

lemma describe_loop_with_churn:
  "map_of (data df) ''Churn'' = Some ch \<Longrightarrow> \<exists>out'. describe_loop describe df nums out = Inr out'"
  by (induction nums arbitrary: out) (auto split: option.splits)

lemma describe_loop_without_churn:
  "map_of (data df) ''Churn'' = None \<Longrightarrow>
   describe_loop describe df nums out =
     (if \<exists>k \<in> set nums. map_of (data df) k \<noteq> None then Inl (KeyError ''Churn'') else Inr out)"
  by (induction nums arbitrary: out) (auto split: option.splits)

lemma eda_and_plots_loops:
  "eda_and_plots describe df =
     (case rate_loop df category_columns [] of
        Inl e \<Rightarrow> Inl e
      | Inr rates \<Rightarrow>
          (case describe_loop describe df numeric_columns [] of
             Inl e \<Rightarrow> Inl e
           | Inr descs \<Rightarrow>
               Inr \<lparr>overall_churn_rate_pct = churn_rate df, rate_tables = rates,
                    describe_tables = descs, plots = plot_files df\<rparr>))"
  unfolding eda_and_plots_def category_columns_def numeric_columns_def by (rule refl)

lemma eda_and_plots_fails_iff:
  "(\<exists>e. eda_and_plots describe df = Inl e) \<longleftrightarrow>
      map_of (data df) ''Churn'' = None
      \<and> (\<exists>k \<in> set (category_columns @ numeric_columns). map_of (data df) k \<noteq> None)"
proof (cases "map_of (data df) ''Churn''")
  case None
  show ?thesis
  proof (cases "\<exists>k \<in> set category_columns. map_of (data df) k \<noteq> None")
    case True
    with None show ?thesis
      by (auto simp: eda_and_plots_loops rate_loop_without_churn)
  next
    case False
    then have r: "rate_loop df category_columns [] = Inr []"
      using None by (simp add: rate_loop_without_churn)
    show ?thesis
    proof (cases "\<exists>k \<in> set numeric_columns. map_of (data df) k \<noteq> None")
      case True
      with None r show ?thesis
        by (auto simp: eda_and_plots_loops describe_loop_without_churn)
    next
      case nums: False
      then have "describe_loop describe df numeric_columns [] = Inr []"
        using None by (simp add: describe_loop_without_churn)
      with r None False nums show ?thesis
        by (auto simp: eda_and_plots_loops)
    qed
  qed
next
  case (Some ch)
  from rate_loop_with_churn [OF Some] obtain rates where "rate_loop df category_columns [] = Inr rates"
    by blast
  moreover from describe_loop_with_churn [OF Some] obtain descs
    where "describe_loop describe df numeric_columns [] = Inr descs"
    by blast
  ultimately show ?thesis using Some by (simp add: eda_and_plots_loops)
qed

text \<open>
  C2. \<open>eda_and_plots\<close> raises exactly on the frames that have no column
  \<open>Churn\<close> and have one of the ten columns of its two loops: the loops test the
  presence of their own column and then group by, or select, \<open>Churn\<close> untested.
  On a frame with \<open>MonthlyCharges\<close> and no \<open>Churn\<close> the aggregation, and with it
  the run, ends in \<open>KeyError\<close>.
\<close>

theorem aggregation_needs_churn:
  "((\<exists>e. eda_and_plots describe df = Inl e) \<longleftrightarrow>
      map_of (data df) ''Churn'' = None
      \<and> (\<exists>k \<in> set (category_columns @ numeric_columns). map_of (data df) k \<noteq> None))
   \<and> eda_and_plots describe no_churn_example = Inl (KeyError ''Churn'')
   \<and> main fmt parse describe no_churn_example = Inl (KeyError ''Churn'')"
proof (intro conjI)
  show e: "eda_and_plots describe no_churn_example = Inl (KeyError ''Churn'')"
    by (simp add: eda_and_plots_def no_churn_example_def)
  have s: "standardize_columns fmt parse no_churn_example = no_churn_example"
    by code_simp
  have c: "create_features no_churn_example = Inr no_churn_example"
    by code_simp
  have k: "map_of (data no_churn_example) ''customerID'' = None"
    by (simp add: no_churn_example_def)
  show "main fmt parse describe no_churn_example = Inl (KeyError ''Churn'')"
    by (simp add: main_def s c k e)
qed (rule eda_and_plots_fails_iff)

section \<open>Missing cells of text columns\<close>

lemma select_and_then: "select m2 (select m1 xs) = select (and_then m1 m2) xs"
proof (induction m1 m2 arbitrary: xs rule: and_then.induct)
  case (1 m2)
  then show ?case by simp
next
  case (2 m1 m2)
  then show ?case by (cases xs) simp_all
next
  case (3 m1)
  then show ?case by (cases xs) simp_all
next
  case (4 m1 b m2)
  then show ?case by (cases xs) simp_all
qed

lemma select_col_and_then: "select_col m2 (select_col m1 c) = select_col (and_then m1 m2) c"
  by (cases c) (simp_all add: select_and_then)



lemma loc_mask_twice: "loc_mask m2 (loc_mask m1 df) = loc_mask (and_then m1 m2) df"
  by (simp add: loc_mask_def select_and_then select_col_and_then case_prod_unfold)











section \<open>The loader\<close>

lemma join_path_snoc: "p \<noteq> [] \<Longrightarrow> join_path (p @ [k]) = join_path p @ ''_'' @ k"
  by (induction p rule: join_path.induct) auto

lemma join_path_empty: "\<forall>k \<in> set p. k \<noteq> [] \<Longrightarrow> join_path p = [] \<longleftrightarrow> p = []"
  by (induction p rule: join_path.induct) auto

lemma next_key:
  "\<forall>k \<in> set p. k \<noteq> [] \<Longrightarrow>
   (if join_path p = [] then k else join_path p @ ''_'' @ k) = join_path (p @ [k])"
  by (cases "p = []") (simp_all add: join_path_snoc join_path_empty)

lemma normalise_json_paths:
  "keys_nonempty v \<Longrightarrow> \<forall>k \<in> set p. k \<noteq> [] \<Longrightarrow>
   map fst (normalise_json (join_path p) v) = map (\<lambda>q. join_path (p @ q)) (leaf_paths v)"
proof (induction v arbitrary: p)
  case (JObj kvs)
  have "map fst (normalise_json (join_path (p @ [k])) v) = map (\<lambda>q. join_path (p @ k # q)) (leaf_paths v)"
    if "(k, v) \<in> set kvs" for k v
  proof -
    from that JObj.prems(1) have "k \<noteq> []" "keys_nonempty v" by (auto simp: list_all_iff)
    with JObj.prems(2) have "\<forall>k' \<in> set (p @ [k]). k' \<noteq> []" by simp
    with JObj.IH [of "(k, v)" v "p @ [k]"] that \<open>keys_nonempty v\<close> show ?thesis by simp
  qed
  then have "map fst (normalise_json (if join_path p = [] then k else join_path p @ ''_'' @ k) v)
      = map (\<lambda>q. join_path (p @ q)) (map ((#) k) (leaf_paths v))"
    if "(k, v) \<in> set kvs" for k v
    using that JObj.prems(2) by (simp add: next_key o_def)
  then show ?case
    by (auto simp: map_concat o_def case_prod_unfold intro!: arg_cong [where f = concat] map_cong)
qed simp_all

lemma assign_all_keys: "fst ` set (assign_all d es) = fst ` set d \<union> fst ` set es"
proof (induction es arbitrary: d)
  case Nil
  then show ?case by (simp add: assign_all_def)
next
  case (Cons e es)
  obtain k v where e: "e = (k, v)" by (cases e)
  have "fst ` set (AList.update k v d) = insert k (fst ` set d)"
    by (induction d) auto
  with Cons [of "AList.update k v d"] e show ?case by (auto simp: assign_all_def)
qed

lemma leaf_paths_not_dict: "\<not> is_dict v \<Longrightarrow> leaf_paths v = [[]]"
  by (cases v) simp_all

lemma leaf_paths_top:
  "list_all (\<lambda>(k, v). \<not> is_dict v) xs \<Longrightarrow> leaf_paths (JObj xs) = map (\<lambda>(k, v). [k]) xs"
  by (induction xs) (auto simp: leaf_paths_not_dict)

lemma set_concat_split:
  "set (concat (map f xs)) =
     set (concat (map f (filter (\<lambda>x. \<not> P x) xs))) \<union> set (concat (map f (filter P xs)))"
  by (induction xs) auto

lemma flattened_keys:
  assumes "keys_nonempty (JObj kvs)"
  shows "fst ` set (simple_json_normalize (JObj kvs)) = join_path ` set (leaf_paths (JObj kvs))"
proof -
  let ?top = "filter (\<lambda>(k, v). \<not> is_dict v) kvs"
  let ?nested = "filter (\<lambda>(k, v). is_dict v) kvs"
  from assms have "keys_nonempty (JObj ?nested)" by (auto simp: list_all_iff)
  from normalise_json_paths [OF this, of "[]"]
  have "map fst (normalise_json [] (JObj ?nested)) = map join_path (leaf_paths (JObj ?nested))"
    by simp
  then have n: "fst ` set (normalise_json [] (JObj ?nested)) = join_path ` set (leaf_paths (JObj ?nested))"
    by (metis set_map)
  have "leaf_paths (JObj ?top) = map (\<lambda>(k, v). [k]) ?top"
    by (rule leaf_paths_top) (simp add: list_all_iff case_prod_unfold)
  then have t: "fst ` set ?top = join_path ` set (leaf_paths (JObj ?top))"
    by (simp add: image_image case_prod_unfold)
  have "set (leaf_paths (JObj kvs)) = set (leaf_paths (JObj ?top)) \<union> set (leaf_paths (JObj ?nested))"
    using set_concat_split [where f = "\<lambda>(k, v). map ((#) k) (leaf_paths v)"
        and P = "\<lambda>(k, v). is_dict v" and xs = kvs]
    by (simp add: case_prod_unfold)
  with n t show ?thesis
    by (simp add: normalise_json_ordered_def assign_all_keys image_Un)
qed

lemma unique_keys_from:
  "distinct acc \<Longrightarrow>
   distinct (foldl (\<lambda>acc k. if k \<in> set acc then acc else acc @ [k]) acc ks)
   \<and> set (foldl (\<lambda>acc k. if k \<in> set acc then acc else acc @ [k]) acc ks) = set acc \<union> set ks"
  by (induction ks arbitrary: acc) auto

lemma unique_keys: "distinct (unique_keys ks)" "set (unique_keys ks) = set ks"
  using unique_keys_from [of "[]" ks] by (simp_all add: unique_keys_def)

lemma first_list_None: "first_list kvs = None \<longleftrightarrow> list_all (\<lambda>(k, v). \<not> is_list v) kvs"
  by (induction kvs rule: first_list.induct) auto

lemma first_list_first:
  "list_all (\<lambda>(k, v). \<not> is_list v) pre \<Longrightarrow> first_list (pre @ (k, JArr v) # post) = Some v"
  by (induction pre rule: first_list.induct) auto

lemma json_normalize_rows: "raw_rows (json_normalize xs) = map simple_json_normalize xs"
  by (simp add: json_normalize_def)

lemma json_normalize_columns:
  "distinct (raw_columns (json_normalize xs))"
  "set (raw_columns (json_normalize xs)) = (\<Union>x \<in> set xs. fst ` set (simple_json_normalize x))"
  by (auto simp: json_normalize_def unique_keys)

text \<open>
  C3, as amended. An array of objects gives one row per element, the row of an object
  being its flattened record; the labels are the keys of the records, each once, and the keys
  of a flattened object are the key paths to its leaves joined by underscores (for
  keys that are not empty). An object with an array-valued field gives the frame of
  the first such array; an object without one gives the frame of the one record.
  Any other value (a bare scalar) gives the empty frame and no error; only a text
  that is not JSON raises.
\<close>

theorem loader_shapes:
  "(list_all is_dict xs \<longrightarrow>
      raw_rows (to_dataframe (JArr xs)) = map simple_json_normalize xs
      \<and> length (raw_rows (to_dataframe (JArr xs))) = length xs
      \<and> distinct (raw_columns (to_dataframe (JArr xs)))
      \<and> set (raw_columns (to_dataframe (JArr xs))) =
          (\<Union>x \<in> set xs. fst ` set (simple_json_normalize x)))
   \<and> (keys_nonempty (JObj kvs) \<longrightarrow>
        fst ` set (simple_json_normalize (JObj kvs)) = join_path ` set (leaf_paths (JObj kvs)))
   \<and> (first_list kvs = Some v \<longrightarrow> to_dataframe (JObj kvs) = to_dataframe (JArr v))
   \<and> (list_all (\<lambda>(k, v). \<not> is_list v) pre \<longrightarrow> first_list (pre @ (k, JArr v) # post) = Some v)
   \<and> (list_all (\<lambda>(k, v). \<not> is_list v) kvs \<longrightarrow>
        to_dataframe (JObj kvs) = json_normalize [JObj kvs]
        \<and> length (raw_rows (to_dataframe (JObj kvs))) = 1)
   \<and> (\<not> is_dict obj \<longrightarrow> \<not> is_list obj \<longrightarrow>
        load_json (Some obj) = Inr \<lparr>raw_columns = [], raw_rows = []\<rparr>)
   \<and> load_json None = Inl JSONDecodeError"
proof (intro conjI impI)
  show "raw_rows (to_dataframe (JArr xs)) = map simple_json_normalize xs"
    by (simp add: to_dataframe_def json_normalize_rows)
  show "length (raw_rows (to_dataframe (JArr xs))) = length xs"
    by (simp add: to_dataframe_def json_normalize_rows)
  show "distinct (raw_columns (to_dataframe (JArr xs)))"
    by (simp add: to_dataframe_def json_normalize_columns)
  show "set (raw_columns (to_dataframe (JArr xs))) = (\<Union>x \<in> set xs. fst ` set (simple_json_normalize x))"
    by (simp add: to_dataframe_def json_normalize_columns)
  show "fst ` set (simple_json_normalize (JObj kvs)) = join_path ` set (leaf_paths (JObj kvs))"
    if "keys_nonempty (JObj kvs)"
    using that by (rule flattened_keys)
  show "to_dataframe (JObj kvs) = to_dataframe (JArr v)" if "first_list kvs = Some v"
    using that by (simp add: to_dataframe_def)
  show "first_list (pre @ (k, JArr v) # post) = Some v" if "list_all (\<lambda>(k, v). \<not> is_list v) pre"
    using that by (rule first_list_first)
  show "to_dataframe (JObj kvs) = json_normalize [JObj kvs]" if "list_all (\<lambda>(k, v). \<not> is_list v) kvs"
    using that by (simp add: to_dataframe_def first_list_None [symmetric])
  show "length (raw_rows (to_dataframe (JObj kvs))) = 1" if "list_all (\<lambda>(k, v). \<not> is_list v) kvs"
    using that by (simp add: to_dataframe_def first_list_None [symmetric] json_normalize_rows)
  show "load_json (Some obj) = Inr \<lparr>raw_columns = [], raw_rows = []\<rparr>"
    if "\<not> is_dict obj" "\<not> is_list obj"
    using that by (cases obj) (simp_all add: load_json_def to_dataframe_def)
  show "load_json None = Inl JSONDecodeError"
    by (simp add: load_json_def)
qed

theorem loader_shapes_witness:
  "to_dataframe (JArr records_example) =
     \<lparr>raw_columns = [''id'', ''account_Churn'', ''account_charges_Monthly'', ''phone''],
      raw_rows = [[(''id'', JNum 7), (''account_Churn'', JStr ''Yes''), (''account_charges_Monthly'', JNum 10)],
                  [(''id'', JNum 8), (''phone'', JStr ''No'')]]\<rparr>
   \<and> length (raw_rows (to_dataframe (JArr records_example))) = length records_example
   \<and> fst ` set (simple_json_normalize (hd records_example)) =
       join_path ` set (leaf_paths (hd records_example))
   \<and> to_dataframe (JObj [(''source'', JStr ''x''), (''customers'', JArr records_example), (''other'', JArr [])]) =
       to_dataframe (JArr records_example)
   \<and> length (raw_rows (to_dataframe (JObj [(''id'', JNum 7), (''phone'', JStr ''No'')]))) = 1
   \<and> load_json (Some (JStr ''x'')) = Inr \<lparr>raw_columns = [], raw_rows = []\<rparr>"
proof -
  have v: "to_dataframe (JArr records_example) =
     \<lparr>raw_columns = [''id'', ''account_Churn'', ''account_charges_Monthly'', ''phone''],
      raw_rows = [[(''id'', JNum 7), (''account_Churn'', JStr ''Yes''), (''account_charges_Monthly'', JNum 10)],
                  [(''id'', JNum 8), (''phone'', JStr ''No'')]]\<rparr>"
    by code_simp
  have d: "list_all is_dict records_example"
    by code_simp
  have h: "hd records_example =
      JObj [(''id'', JNum 7), (''account'', JObj [(''Churn'', JStr ''Yes''), (''charges'', JObj [(''Monthly'', JNum 10)])])]"
    by (simp add: records_example_def)
  have k: "keys_nonempty (JObj [(''id'', JNum 7), (''account'', JObj [(''Churn'', JStr ''Yes''), (''charges'', JObj [(''Monthly'', JNum 10)])])])"
    by simp
  have f: "first_list [(''source'', JStr ''x''), (''customers'', JArr records_example), (''other'', JArr [])] =
      Some records_example"
    by simp
  have n: "list_all (\<lambda>(k, v). \<not> is_list v) [(''id'', JNum 7), (''phone'', JStr ''No'')]"
    by simp
  have s: "\<not> is_dict (JStr ''x'')" "\<not> is_list (JStr ''x'')"
    by simp_all
  note t = loader_shapes [of records_example
      "[(''id'', JNum 7), (''account'', JObj [(''Churn'', JStr ''Yes''), (''charges'', JObj [(''Monthly'', JNum 10)])])]"]
  from t d have "length (raw_rows (to_dataframe (JArr records_example))) = length records_example"
    by blast
  moreover from t k h have "fst ` set (simple_json_normalize (hd records_example)) =
       join_path ` set (leaf_paths (hd records_example))"
    by simp
  moreover from loader_shapes [of _ "[(''source'', JStr ''x''), (''customers'', JArr records_example), (''other'', JArr [])]"
      records_example] f
  have "to_dataframe (JObj [(''source'', JStr ''x''), (''customers'', JArr records_example), (''other'', JArr [])]) =
       to_dataframe (JArr records_example)"
    by blast
  moreover from loader_shapes [of _ "[(''id'', JNum 7), (''phone'', JStr ''No'')]"] n
  have "length (raw_rows (to_dataframe (JObj [(''id'', JNum 7), (''phone'', JStr ''No'')]))) = 1"
    by blast
  moreover from loader_shapes [where obj = "JStr ''x''"] s
  have "load_json (Some (JStr ''x'')) = Inr \<lparr>raw_columns = [], raw_rows = []\<rparr>"
    by blast
  ultimately show ?thesis using v by blast
qed

text \<open>
  C3 as stated fails: the bare scalar 42 is valid JSON, and the loader returns the
  empty frame for it, not an error.
\<close>

theorem loader_scalar_counterexample:
  "load_json (Some (JNum 42)) = Inr \<lparr>raw_columns = [], raw_rows = []\<rparr>"
  by (simp add: load_json_def to_dataframe_def)

end
